theory Spec2Isabelle
  imports Main "HOL-Library.AList"
begin

section \<open>Python values used by app.py\<close>

text \<open>
  A Python \<open>str\<close> is a sequence of Unicode code points. Isabelle's \<open>char\<close> is a byte,
  so a string is modelled as a list of code points (natural numbers); the literals of the
  source are ASCII and are written \<open>ascii ''...''\<close>.
\<close>

type_synonym codepoint = nat
type_synonym ustr = "codepoint list"

definition ascii :: "string \<Rightarrow> ustr" where
  "ascii s = map of_char s"

text \<open>Exceptions are values; a function that can raise returns \<open>error + 'a\<close>.\<close>

datatype error = ValueError | IndexError | KeyError | OSError | UnicodeEncodeError

text \<open>
  The tables of the Unicode character database that the interpreter consults, and its limit
  on the digits of an integer literal. They are a parameter of the model: every theorem
  holds for every table, and the concrete table \<open>ucd_basico\<close> below gives the entries of the
  characters used in the examples.
  \<^item> \<open>decimal\<close>: the digit value of a non-ASCII character of category Nd;
  \<^item> \<open>lower_no_ascii\<close>: \<open>str.lower\<close> on a string that is not pure ASCII;
  \<^item> \<open>canonical\<close>, \<open>compatibility\<close>: the full canonical and the full compatibility
    decomposition of a code point (the code point itself when it has none);
  \<^item> \<open>ccc\<close>: the canonical combining class;
  \<^item> \<open>composite\<close>: the primary composite of a pair of code points;
  \<^item> \<open>max_str_digits\<close>: \<open>sys.get_int_max_str_digits()\<close>, where 0 means no limit.
\<close>

record ucd =
  decimal :: "codepoint \<Rightarrow> nat option"
  lower_no_ascii :: "ustr \<Rightarrow> ustr"
  canonical :: "codepoint \<Rightarrow> ustr"
  compatibility :: "codepoint \<Rightarrow> ustr"
  ccc :: "codepoint \<Rightarrow> nat"
  composite :: "codepoint \<Rightarrow> codepoint \<Rightarrow> codepoint option"
  max_str_digits :: nat

subsection \<open>str.strip, str.split, str.rsplit, str.lower, str.join\<close>

text \<open>\<open>str.isspace\<close> of one code point: the characters \<open>str.strip()\<close> removes.\<close>

definition isspace :: "codepoint \<Rightarrow> bool" where
  "isspace c = ((9 \<le> c \<and> c \<le> 13) \<or> (28 \<le> c \<and> c \<le> 32) \<or> c = 133 \<or> c = 160 \<or> c = 5760
      \<or> (8192 \<le> c \<and> c \<le> 8202) \<or> c = 8232 \<or> c = 8233 \<or> c = 8239 \<or> c = 8287 \<or> c = 12288)"

definition strip_with :: "(codepoint \<Rightarrow> bool) \<Rightarrow> ustr \<Rightarrow> ustr" where
  "strip_with sp s = rev (dropWhile sp (rev (dropWhile sp s)))"

definition strip :: "ustr \<Rightarrow> ustr" where
  "strip s = strip_with isspace s"

text \<open>\<open>s.split(sep)\<close> for a separator of one character: never the empty list.\<close>

fun split_on :: "codepoint \<Rightarrow> ustr \<Rightarrow> ustr list" where
  "split_on sep [] = [[]]"
| "split_on sep (c # cs) =
     (if c = sep then [] # split_on sep cs
      else (case split_on sep cs of [] \<Rightarrow> [[c]] | r # rs \<Rightarrow> (c # r) # rs))"

text \<open>
  \<open>s.rsplit(sep, 1)\<close>: the string is scanned from the right for the first separator;
  without one the result is the one-element list of the whole string.
\<close>

definition rsplit1 :: "codepoint \<Rightarrow> ustr \<Rightarrow> ustr list" where
  "rsplit1 sep s =
     (let r = rev s; suf = takeWhile (\<lambda>c. c \<noteq> sep) r
      in case dropWhile (\<lambda>c. c \<noteq> sep) r of
           [] \<Rightarrow> [s]
         | _ # pre \<Rightarrow> [rev pre, rev suf])"

text \<open>\<open>xs[i]\<close> on a list, for an index that is not negative.\<close>

definition item :: "'a list \<Rightarrow> nat \<Rightarrow> error + 'a" where
  "item xs i = (if i < length xs then Inr (xs ! i) else Inl IndexError)"

text \<open>
  \<open>str.lower\<close>: CPython lowers a pure ASCII string byte by byte and sends every other
  string through the case tables.
\<close>

definition ascii_lower :: "codepoint \<Rightarrow> codepoint" where
  "ascii_lower c = (if 65 \<le> c \<and> c \<le> 90 then c + 32 else c)"

definition lower :: "ucd \<Rightarrow> ustr \<Rightarrow> ustr" where
  "lower U s = (if list_all (\<lambda>c. c < 128) s then map ascii_lower s else lower_no_ascii U s)"

fun join :: "ustr \<Rightarrow> ustr list \<Rightarrow> ustr" where
  "join sep [] = []"
| "join sep [x] = x"
| "join sep (x # y # ys) = x @ sep @ join sep (y # ys)"

text \<open>\<open>str(i)\<close> of a natural number, as the f-string \<open>f"col{i}"\<close> formats it.\<close>

fun str_nat :: "nat \<Rightarrow> ustr" where
  "str_nat n = (if n < 10 then [48 + n] else str_nat (n div 10) @ [48 + n mod 10])"

declare str_nat.simps [simp del]

subsection \<open>int(str)\<close>

text \<open>
  \<open>int(s)\<close> in base 10. Surrounding whitespace is skipped (of the ASCII control characters
  only 9 to 13 and the space; every non-ASCII space), then an optional sign, then digits with
  single underscores between them. A decimal digit of any script counts with its value.
  A literal with more digits than the limit of the interpreter is rejected.
\<close>

definition int_space :: "codepoint \<Rightarrow> bool" where
  "int_space c = ((9 \<le> c \<and> c \<le> 13) \<or> c = 32 \<or> (128 \<le> c \<and> isspace c))"

definition digit :: "ucd \<Rightarrow> codepoint \<Rightarrow> nat option" where
  "digit U c = (if 48 \<le> c \<and> c \<le> 57 then Some (c - 48) else if c < 128 then None else decimal U c)"

fun int_digits :: "ucd \<Rightarrow> bool \<Rightarrow> int \<Rightarrow> ustr \<Rightarrow> error + int" where
  "int_digits U prev acc [] = (if prev then Inr acc else Inl ValueError)"
| "int_digits U prev acc (c # cs) =
     (if c = 95 then (if prev then int_digits U False acc cs else Inl ValueError)
      else (case digit U c of
              None \<Rightarrow> Inl ValueError
            | Some d \<Rightarrow> int_digits U True (10 * acc + int d) cs))"

definition py_int :: "ucd \<Rightarrow> ustr \<Rightarrow> error + int" where
  "py_int U s =
     (case strip_with int_space s of
        [] \<Rightarrow> Inl ValueError
      | c # cs \<Rightarrow>
          if 0 < max_str_digits U
             \<and> max_str_digits U
                 < length (filter (\<lambda>d. d \<noteq> 95) (if c = 45 \<or> c = 43 then cs else c # cs))
          then Inl ValueError
          else if c = 45 then map_sum id uminus (int_digits U False 0 cs)
          else if c = 43 then int_digits U False 0 cs
          else int_digits U False 0 (c # cs))"

subsection \<open>datetime.fromtimestamp\<close>

record datetime =
  year :: int
  month :: int
  day :: int
  hour :: int
  minute :: int
  second :: int

text \<open>The proleptic Gregorian date of a day number counted from 1970-01-01.\<close>

definition civil_from_days :: "int \<Rightarrow> int \<times> int \<times> int" where
  "civil_from_days z =
     (let z1 = z + 719468;
          era = z1 div 146097;
          doe = z1 - era * 146097;
          yoe = (doe - doe div 1460 + doe div 36524 - doe div 146096) div 365;
          doy = doe - (365 * yoe + yoe div 4 - yoe div 100);
          mp = (5 * doy + 2) div 153;
          d = doy - (153 * mp + 2) div 5 + 1;
          m = (if mp < 10 then mp + 3 else mp - 9)
      in (yoe + era * 400 + (if m \<le> 2 then 1 else 0), m, d))"

text \<open>
  \<open>datetime.fromtimestamp(ts)\<close> with no time zone argument gives the local time: the
  offset of the local zone from UTC at an instant, in seconds, is the parameter \<open>off\<close>
  (CPython on a POSIX platform with a 64-bit \<open>time_t\<close> and no leap seconds; the offsets of
  a zone are smaller than a day).

  \<open>local\<close> of \<open>_datetimemodule.c\<close>: the local time of an instant as a count of seconds;
  \<open>utc_to_seconds\<close> raises ValueError for a year outside \<open>MINYEAR\<close> to \<open>MAXYEAR\<close>. The
  count is taken from the epoch here; only differences of counts are used.
\<close>

definition MINYEAR :: int where
  "MINYEAR = 1"

definition MAXYEAR :: int where
  "MAXYEAR = 9999"

definition max_fold_seconds :: int where
  "max_fold_seconds = 24 * 3600"

definition local :: "(int \<Rightarrow> int) \<Rightarrow> int \<Rightarrow> error + int" where
  "local off u =
     (case civil_from_days ((u + off u) div 86400) of
        (y, m, d) \<Rightarrow> if y < MINYEAR \<or> y > MAXYEAR then Inl ValueError else Inr (u + off u))"

text \<open>
  \<open>datetime_from_timet_and_us\<close>: the fields of the local time, whose year must lie in
  \<open>MINYEAR\<close> to \<open>MAXYEAR\<close>; then, to find out whether the local time is the second
  occurrence of a repeated one, the local time of the instant \<open>max_fold_seconds\<close> earlier
  is computed, and when the offset has decreased in between, that of the instant before the
  transition. Each of these raises like the first. The result of the probes (the attribute
  \<open>fold\<close>) shows in no text of the date and is not recorded. One error stands for
  ValueError, OverflowError and OSError: the caller catches all.
\<close>

definition fromtimestamp :: "(int \<Rightarrow> int) \<Rightarrow> int \<Rightarrow> error + datetime" where
  "fromtimestamp off timet =
     (let t = timet + off timet;
          s = t mod 86400
      in case civil_from_days (t div 86400) of
           (y, m, d) \<Rightarrow>
             (case local off timet of
                Inl e \<Rightarrow> Inl e
              | Inr result_seconds \<Rightarrow>
                  (case local off (timet - max_fold_seconds) of
                     Inl e \<Rightarrow> Inl e
                   | Inr probe_seconds \<Rightarrow>
                       (let transition = result_seconds - probe_seconds - max_fold_seconds
                        in case (if transition < 0 then local off (timet + transition)
                                 else Inr probe_seconds) of
                             Inl e \<Rightarrow> Inl e
                           | Inr probe \<Rightarrow>
                               Inr \<lparr>year = y, month = m, day = d,
                                    hour = s div 3600, minute = (s mod 3600) div 60,
                                    second = s mod 60\<rparr>))))"

subsection \<open>unicodedata.normalize\<close>

datatype norm_form = NFC | NFD | NFKC | NFKD

definition decompose :: "ucd \<Rightarrow> bool \<Rightarrow> ustr \<Rightarrow> ustr" where
  "decompose U kompat s = concat (map (if kompat then compatibility U else canonical U) s)"

text \<open>
  Canonical ordering: a character with a combining class other than 0 moves left past
  every character with a greater class. The accumulator is the output so far, reversed.
\<close>

fun reorder_ins :: "ucd \<Rightarrow> codepoint \<Rightarrow> ustr \<Rightarrow> ustr" where
  "reorder_ins U c [] = [c]"
| "reorder_ins U c (p # ps) =
     (if ccc U c \<noteq> 0 \<and> ccc U c < ccc U p then p # reorder_ins U c ps else c # p # ps)"

definition canonical_order :: "ucd \<Rightarrow> ustr \<Rightarrow> ustr" where
  "canonical_order U s = rev (foldl (\<lambda>acc c. reorder_ins U c acc) [] s)"

text \<open>
  Canonical composition. The state is the finished output and the current segment, which
  starts at the last starter. A character joins the starter when no character between
  them blocks it and the pair has a primary composite.
\<close>

definition compose_step :: "ucd \<Rightarrow> ustr \<times> ustr \<Rightarrow> codepoint \<Rightarrow> ustr \<times> ustr" where
  "compose_step U st c =
     (case st of (fin, seg) \<Rightarrow>
        (case seg of
           [] \<Rightarrow> (fin, [c])
         | l # marks \<Rightarrow>
             (case (if ccc U l = 0 \<and> list_all (\<lambda>b. ccc U b \<noteq> 0 \<and> ccc U b < ccc U c) marks
                    then composite U l c else None) of
                Some p \<Rightarrow> (fin, p # marks)
              | None \<Rightarrow> if ccc U c = 0 then (fin @ seg, [c]) else (fin, seg @ [c]))))"

definition compose :: "ucd \<Rightarrow> ustr \<Rightarrow> ustr" where
  "compose U s = (case foldl (compose_step U) ([], []) s of (fin, seg) \<Rightarrow> fin @ seg)"

definition normalize :: "ucd \<Rightarrow> norm_form \<Rightarrow> ustr \<Rightarrow> ustr" where
  "normalize U form s =
     (let d = canonical_order U (decompose U (form = NFKC \<or> form = NFKD) s)
      in if form = NFC \<or> form = NFKC then compose U d else d)"

section \<open>pandas: a frame of cells\<close>

text \<open>
  A cell of a frame: a string, a timestamp, or nothing (\<open>None\<close>, \<open>NaN\<close> and \<open>NaT\<close>, which
  pandas treats alike and writes as the empty field).
\<close>

datatype cell = Str ustr | Fecha datetime | NA

record dataframe =
  columns :: "ustr list"
  rows :: "cell list list"

text \<open>
  \<open>pd.DataFrame(datos)\<close> for a list of dicts: the columns are the keys in the order of their
  first appearance, and a key a dict lacks gives an empty cell. A dict is an association
  list in insertion order (\<open>AList.update\<close> overwrites a key in place and appends a new one).
\<close>

definition DataFrame :: "(ustr \<times> cell) list list \<Rightarrow> dataframe" where
  "DataFrame datos =
     (let cols = foldl (\<lambda>acc d. acc @ filter (\<lambda>k. k \<notin> set acc) (map fst d)) [] datos
      in \<lparr>columns = cols,
          rows = map (\<lambda>d. map (\<lambda>c. case map_of d c of None \<Rightarrow> NA | Some v \<Rightarrow> v) cols) datos\<rparr>)"

definition cell_at :: "ustr list \<Rightarrow> cell list \<Rightarrow> ustr \<Rightarrow> cell" where
  "cell_at cols r c = (case map_of (zip cols r) c of None \<Rightarrow> NA | Some v \<Rightarrow> v)"

text \<open>\<open>df[cols]\<close>: the named columns in the order given; KeyError when one is missing.\<close>

definition getitem :: "dataframe \<Rightarrow> ustr list \<Rightarrow> error + dataframe" where
  "getitem df cols =
     (if set cols \<subseteq> set (columns df)
      then Inr \<lparr>columns = cols, rows = map (\<lambda>r. map (cell_at (columns df) r) cols) (rows df)\<rparr>
      else Inl KeyError)"

text \<open>\<open>df.rename(columns=m)\<close>.\<close>

definition rename :: "(ustr \<times> ustr) list \<Rightarrow> dataframe \<Rightarrow> dataframe" where
  "rename m df = df\<lparr>columns := map (\<lambda>c. case map_of m c of None \<Rightarrow> c | Some n \<Rightarrow> n) (columns df)\<rparr>"

text \<open>
  \<open>df[name] = df[name].replace(tbl)\<close> for a dict of strings: a cell that is a key of the
  dict becomes its entry, every other cell stays.
\<close>

definition replace_cell :: "(ustr \<rightharpoonup> ustr) \<Rightarrow> cell \<Rightarrow> cell" where
  "replace_cell tbl v =
     (case v of Str s \<Rightarrow> (case tbl s of None \<Rightarrow> v | Some t \<Rightarrow> Str t) | _ \<Rightarrow> v)"

definition replace_column :: "(ustr \<rightharpoonup> ustr) \<Rightarrow> ustr \<Rightarrow> dataframe \<Rightarrow> dataframe" where
  "replace_column tbl name df =
     df\<lparr>rows := map (\<lambda>r. map (\<lambda>(c, v). if c = name then replace_cell tbl v else v)
                              (zip (columns df) r)) (rows df)\<rparr>"

text \<open>The list methods of the reordering step.\<close>

definition list_remove :: "'a list \<Rightarrow> 'a \<Rightarrow> error + 'a list" where
  "list_remove xs x = (if x \<in> set xs then Inr (remove1 x xs) else Inl ValueError)"

fun list_index :: "'a list \<Rightarrow> 'a \<Rightarrow> error + nat" where
  "list_index [] x = Inl ValueError"
| "list_index (y # ys) x = (if y = x then Inr 0 else map_sum id Suc (list_index ys x))"

definition list_insert :: "'a list \<Rightarrow> nat \<Rightarrow> 'a \<Rightarrow> 'a list" where
  "list_insert xs i x = take i xs @ x # drop i xs"

section \<open>app.py\<close>

text \<open>
  What the program reads from its surroundings:
  \<^item> \<open>tablas\<close>: the Unicode tables of the interpreter;
  \<^item> \<open>utcoffset\<close>: the offset of the local time zone at an instant;
  \<^item> \<open>archivos\<close>: the files that exist, with their text as \<open>open(..., encoding="utf-8",
    errors="ignore")\<close> decodes it;
  \<^item> \<open>eventos_json\<close>: how the \<open>try\<close> block of lines 74 to 78 ends (\<open>open("eventos.json")\<close>,
    \<open>json.load\<close>, \<open>replace\<close> taking what was loaded): with an exception \<open>e\<close>, given with
    its text \<open>str(e)\<close>, or with the table of codes and labels (a JSON object whose values
    are strings);
  \<^item> \<open>stdout\<close>: what writing a text to the standard output raises, if anything (the
    encoding of the standard output cannot encode every text);
  \<^item> \<open>fecha_texto\<close>: how \<open>to_csv\<close> prints a timestamp; pandas chooses the format from
    the cells of the whole column, which is the first argument.
\<close>

record env =
  tablas :: ucd
  utcoffset :: "int \<Rightarrow> int"
  archivos :: "ustr \<rightharpoonup> ustr"
  eventos_json :: "error \<times> ustr + (ustr \<rightharpoonup> ustr)"
  stdout :: "ustr \<Rightarrow> error option"
  fecha_texto :: "cell list \<Rightarrow> datetime \<Rightarrow> ustr"

definition ALLOWED_EXTENSIONS :: "ustr set" where
  "ALLOWED_EXTENSIONS = {ascii ''txt'', ascii ''log'', ascii ''csv''}"

definition allowed_file :: "ucd \<Rightarrow> ustr \<Rightarrow> error + bool" where
  "allowed_file U filename =
     (if 46 \<notin> set filename then Inr True
      else (case item (rsplit1 46 filename) 1 of
              Inl e \<Rightarrow> Inl e
            | Inr ext \<Rightarrow> Inr (lower U ext \<in> ALLOWED_EXTENSIONS)))"

text \<open>\<open>limpiar_texto\<close>: a value that is not a string is returned as it is.\<close>

fun limpiar_texto :: "ucd \<Rightarrow> cell \<Rightarrow> cell" where
  "limpiar_texto U (Str texto) = Str (normalize U NFKC texto)"
| "limpiar_texto U texto = texto"

text \<open>
  \<open>f.readlines()\<close> of a file opened in text mode: \<open>\r\n\<close> and \<open>\r\<close> are read as \<open>\n\<close>, and
  every line keeps its \<open>\n\<close>.
\<close>

fun universal_newlines :: "ustr \<Rightarrow> ustr" where
  "universal_newlines [] = []"
| "universal_newlines [c] = [if c = 13 then 10 else c]"
| "universal_newlines (c # d # ds) =
     (if c = 13
      then (if d = 10 then 10 # universal_newlines ds else 10 # universal_newlines (d # ds))
      else c # universal_newlines (d # ds))"

fun lines_keepends :: "ustr \<Rightarrow> ustr list" where
  "lines_keepends [] = []"
| "lines_keepends (c # cs) =
     (if c = 10 then [c] # lines_keepends cs
      else (case lines_keepends cs of [] \<Rightarrow> [[c]] | l # ls \<Rightarrow> (c # l) # ls))"

definition readlines :: "ustr \<Rightarrow> ustr list" where
  "readlines contenido = lines_keepends (universal_newlines contenido)"

definition col :: "nat \<Rightarrow> ustr" where
  "col i = ascii ''col'' @ str_nat i"

text \<open>
  Lines 43 to 47: the bare \<open>except\<close> turns every exception of \<open>partes[0]\<close>, of \<open>int\<close> and
  of \<open>fromtimestamp\<close> into \<open>None\<close>.
\<close>

definition fecha_legible :: "env \<Rightarrow> ustr list \<Rightarrow> cell" where
  "fecha_legible env partes =
     (case item partes 0 of
        Inl e \<Rightarrow> NA
      | Inr p \<Rightarrow>
          (case py_int (tablas env) p of
             Inl e \<Rightarrow> NA
           | Inr ts \<Rightarrow>
               (case fromtimestamp (utcoffset env) ts of
                  Inl e \<Rightarrow> NA
                | Inr d \<Rightarrow> Fecha d)))"

text \<open>The body of the loop over the lines (lines 37 to 47): the dict \<open>fila\<close> of one line.\<close>

definition fila :: "env \<Rightarrow> ustr \<Rightarrow> (ustr \<times> cell) list" where
  "fila env linea =
     (let partes = split_on 124 (strip linea);
          f = foldl (\<lambda>d (i, valor).
                       AList.update (col i) (limpiar_texto (tablas env) (Str (strip valor))) d)
                [] (enumerate 0 partes)
      in AList.update (ascii ''fecha_legible'') (fecha_legible env partes) f)"

text \<open>Lines 54 to 59: \<open>fecha_legible\<close> is moved right after \<open>col0\<close>.\<close>

definition reordenar :: "dataframe \<Rightarrow> error + dataframe" where
  "reordenar df =
     (if col 0 \<in> set (columns df) \<and> ascii ''fecha_legible'' \<in> set (columns df)
      then (case list_remove (columns df) (ascii ''fecha_legible'') of
              Inl e \<Rightarrow> Inl e
            | Inr cols \<Rightarrow>
                (case list_index cols (col 0) of
                   Inl e \<Rightarrow> Inl e
                 | Inr k \<Rightarrow> getitem df (list_insert cols (k + 1) (ascii ''fecha_legible''))))
      else Inr df)"

definition renombres :: "(ustr \<times> ustr) list" where
  "renombres = [(col 0, ascii ''timestamp''), (col 2, ascii ''cola''),
                (col 4, ascii ''evento''), (col 6, ascii ''numero_telefono'')]"

text \<open>
  Lines 73 to 80: an exception \<open>e\<close> of the \<open>try\<close> block leaves the frame as it was, and the
  handler prints a warning that ends with \<open>str(e)\<close> and starts with U+26A0 WARNING SIGN
  and U+FE0F. What \<open>print\<close> raises is raised by \<open>generar_dataframe\<close>: nothing encloses the
  handler.
\<close>

definition aviso :: "ustr \<Rightarrow> ustr" where
  "aviso e = [9888, 65039] @ ascii '' No se pudo cargar eventos.json: '' @ e"

definition traducir :: "env \<Rightarrow> dataframe \<Rightarrow> error + dataframe" where
  "traducir env df =
     (case eventos_json env of
        Inl (e, texto) \<Rightarrow>
          (case stdout env (aviso texto) of
             Some err \<Rightarrow> Inl err
           | None \<Rightarrow> Inr df)
      | Inr traduccion_eventos \<Rightarrow>
          if ascii ''evento'' \<in> set (columns df)
          then Inr (replace_column traduccion_eventos (ascii ''evento'') df)
          else Inr df)"

definition generar_dataframe :: "env \<Rightarrow> ustr \<Rightarrow> error + dataframe" where
  "generar_dataframe env filepath =
     (case archivos env filepath of
        None \<Rightarrow> Inl OSError
      | Some contenido \<Rightarrow>
          (let lineas = readlines contenido;
               datos = map (fila env) lineas
           in case reordenar (DataFrame datos) of
                Inl e \<Rightarrow> Inl e
              | Inr df \<Rightarrow>
                  (let columnas_finales =
                         filter (\<lambda>c. c \<in> set (columns df))
                           [col 0, ascii ''fecha_legible'', col 2, col 4, col 6]
                   in case getitem df columnas_finales of
                        Inl e \<Rightarrow> Inl e
                      | Inr df2 \<Rightarrow> traducir env (rename renombres df2))))"

subsection \<open>The report in memory\<close>

text \<open>
  \<open>df.to_csv(index=False)\<close> hands the header and the rows to \<open>csv.writer\<close> with minimal
  quoting: a field with a comma, a quote, \<open>\r\<close> or \<open>\n\<close> is quoted and its quotes doubled; a
  row whose one field is empty is written \<open>""\<close>; every row ends with the line terminator,
  which pandas takes from \<open>os.linesep\<close>: \<open>\n\<close> on a POSIX system, the platform of this
  model.
\<close>

definition csv_special :: "codepoint \<Rightarrow> bool" where
  "csv_special c = (c = 44 \<or> c = 34 \<or> c = 10 \<or> c = 13)"

definition csv_field :: "ustr \<Rightarrow> ustr" where
  "csv_field s =
     (if list_ex csv_special s
      then 34 # concat (map (\<lambda>c. if c = 34 then [34, 34] else [c]) s) @ [34]
      else s)"

definition csv_row :: "ustr list \<Rightarrow> ustr" where
  "csv_row fs = (if fs = [[]] then [34, 34] else join [44] (map csv_field fs)) @ [10]"

definition csv_write :: "ustr list list \<Rightarrow> ustr" where
  "csv_write t = concat (map csv_row t)"

definition column_cells :: "dataframe \<Rightarrow> nat \<Rightarrow> cell list" where
  "column_cells df j = map (\<lambda>r. case drop j r of [] \<Rightarrow> NA | v # _ \<Rightarrow> v) (rows df)"

definition cell_text :: "env \<Rightarrow> dataframe \<Rightarrow> nat \<Rightarrow> cell \<Rightarrow> ustr" where
  "cell_text env df j v =
     (case v of Str s \<Rightarrow> s | Fecha d \<Rightarrow> fecha_texto env (column_cells df j) d | NA \<Rightarrow> [])"

definition table_text :: "env \<Rightarrow> dataframe \<Rightarrow> ustr list list" where
  "table_text env df =
     columns df # map (\<lambda>r. map (\<lambda>(j, v). cell_text env df j v) (enumerate 0 r)) (rows df)"

definition to_csv :: "env \<Rightarrow> dataframe \<Rightarrow> ustr" where
  "to_csv env df = csv_write (table_text env df)"

text \<open>
  \<open>str.encode("utf-8-sig")\<close>: the three bytes of the byte-order mark, then UTF-8. A
  surrogate (or a number that is no code point) raises UnicodeEncodeError.
\<close>

definition utf8_char :: "codepoint \<Rightarrow> error + nat list" where
  "utf8_char c =
     (if c < 128 then Inr [c]
      else if c < 2048 then Inr [192 + c div 64, 128 + c mod 64]
      else if 55296 \<le> c \<and> c < 57344 then Inl UnicodeEncodeError
      else if c < 65536 then Inr [224 + c div 4096, 128 + (c div 64) mod 64, 128 + c mod 64]
      else if c < 1114112
      then Inr [240 + c div 262144, 128 + (c div 4096) mod 64, 128 + (c div 64) mod 64,
                128 + c mod 64]
      else Inl UnicodeEncodeError)"

fun encode_utf8 :: "ustr \<Rightarrow> error + nat list" where
  "encode_utf8 [] = Inr []"
| "encode_utf8 (c # cs) =
     (case utf8_char c of
        Inl e \<Rightarrow> Inl e
      | Inr b \<Rightarrow> (case encode_utf8 cs of Inl e \<Rightarrow> Inl e | Inr bs \<Rightarrow> Inr (b @ bs)))"

definition BOM :: "nat list" where
  "BOM = [239, 187, 191]"

definition encode_utf8_sig :: "ustr \<Rightarrow> error + nat list" where
  "encode_utf8_sig s = map_sum id (\<lambda>b. BOM @ b) (encode_utf8 s)"

text \<open>
  The content of the \<open>BytesIO\<close>. The bytes of a workbook are not modelled: the Excel branch
  yields the sheet name and the frame written to it.
\<close>

datatype salida = Xlsx ustr dataframe | Bytes "nat list"

definition generar_reporte_memoria :: "env \<Rightarrow> dataframe \<Rightarrow> ustr \<Rightarrow> error + salida" where
  "generar_reporte_memoria env df formato =
     (if formato = ascii ''excel''
      then Inr (Xlsx (ascii ''Reporte'') df)
      else map_sum id Bytes (encode_utf8_sig (to_csv env df)))"

subsection \<open>The route /generar/<formato>\<close>

text \<open>A response: a body with a status, or a file sent as an attachment.\<close>

datatype respuesta = Cuerpo ustr nat | Adjunto salida ustr ustr

definition mensaje_sin_archivo :: ustr where
  "mensaje_sin_archivo = 10060 # ascii '' Primero debes subir un archivo.''"

text \<open>
  \<open>session.get("last_file")\<close> is \<open>None\<close> without an upload; \<open>not filepath\<close> also holds for the
  empty string; \<open>os.path.exists\<close> asks the file system.
\<close>

definition generar :: "env \<Rightarrow> (ustr \<rightharpoonup> ustr) \<Rightarrow> ustr \<Rightarrow> error + respuesta" where
  "generar env session formato =
     (case session (ascii ''last_file'') of
        None \<Rightarrow> Inr (Cuerpo mensaje_sin_archivo 400)
      | Some filepath \<Rightarrow>
          if filepath = [] \<or> archivos env filepath = None
          then Inr (Cuerpo mensaje_sin_archivo 400)
          else (case generar_dataframe env filepath of
                  Inl e \<Rightarrow> Inl e
                | Inr df \<Rightarrow>
                    (case generar_reporte_memoria env df formato of
                       Inl e \<Rightarrow> Inl e
                     | Inr archivo \<Rightarrow>
                         if formato = ascii ''excel''
                         then Inr (Adjunto archivo (ascii ''reporte.xlsx'')
                                (ascii ''application/vnd.openxmlformats-officedocument.spreadsheetml.sheet''))
                         else Inr (Adjunto archivo (ascii ''reporte.csv'') (ascii ''text/csv'')))))"

section \<open>Notions used in the statements\<close>

text \<open>
  The definitions of this section are not translations of app.py: they name what the
  statements below talk about (the fields of a line, a cell of the result, what a reader of
  the exported bytes sees) and give the concrete surroundings of the examples.
\<close>

subsection \<open>Lines, fields and cells\<close>

definition partes_de :: "ustr \<Rightarrow> ustr list" where
  "partes_de linea = split_on 124 (strip linea)"

text \<open>Field \<open>k\<close> of a line as the result shows it: stripped and normalized, or empty.\<close>

definition campo :: "env \<Rightarrow> ustr \<Rightarrow> nat \<Rightarrow> cell" where
  "campo env linea k =
     (if k < length (partes_de linea)
      then Str (normalize (tablas env) NFKC (strip (partes_de linea ! k)))
      else NA)"

text \<open>Some line has a field at position \<open>k\<close>.\<close>

definition presente :: "ustr list \<Rightarrow> nat \<Rightarrow> bool" where
  "presente lineas k = list_ex (\<lambda>l. k < length (partes_de l)) lineas"

text \<open>
  The table loads, or the warning of the handler can be written to the standard output:
  then nothing is raised after the parse.
\<close>

definition aviso_posible :: "env \<Rightarrow> bool" where
  "aviso_posible env =
     (case eventos_json env of
        Inl (e, texto) \<Rightarrow> stdout env (aviso texto) = None
      | Inr t \<Rightarrow> True)"

definition traducir_celda :: "env \<Rightarrow> cell \<Rightarrow> cell" where
  "traducir_celda env v = (case eventos_json env of Inl e \<Rightarrow> v | Inr t \<Rightarrow> replace_cell t v)"

definition columnas_salida :: "ustr list \<Rightarrow> ustr list" where
  "columnas_salida lineas =
     (if lineas = [] then []
      else [ascii ''timestamp'', ascii ''fecha_legible'']
           @ (if presente lineas 2 then [ascii ''cola''] else [])
           @ (if presente lineas 4 then [ascii ''evento''] else [])
           @ (if presente lineas 6 then [ascii ''numero_telefono''] else []))"

definition fila_salida :: "env \<Rightarrow> ustr list \<Rightarrow> ustr \<Rightarrow> cell list" where
  "fila_salida env lineas l =
     [campo env l 0, fecha_legible env (partes_de l)]
     @ (if presente lineas 2 then [campo env l 2] else [])
     @ (if presente lineas 4 then [traducir_celda env (campo env l 4)] else [])
     @ (if presente lineas 6 then [campo env l 6] else [])"

text \<open>The columns kept by the selection, before they are renamed.\<close>

definition finales :: "ustr list \<Rightarrow> ustr list" where
  "finales lineas =
     (if lineas = [] then [] else [col 0, ascii ''fecha_legible''])
     @ (if presente lineas 2 then [col 2] else [])
     @ (if presente lineas 4 then [col 4] else [])
     @ (if presente lineas 6 then [col 6] else [])"

definition nombre_final :: "ustr \<Rightarrow> ustr" where
  "nombre_final c = (case map_of renombres c of None \<Rightarrow> c | Some n \<Rightarrow> n)"

text \<open>\<open>d.get(c)\<close> with the empty cell for a missing key, and the frame of some columns.\<close>

definition valor :: "(ustr \<times> cell) list \<Rightarrow> ustr \<Rightarrow> cell" where
  "valor d c = (case map_of d c of None \<Rightarrow> NA | Some v \<Rightarrow> v)"

definition marco :: "(ustr \<times> cell) list list \<Rightarrow> ustr list \<Rightarrow> dataframe" where
  "marco datos cs = \<lparr>columns = cs, rows = map (\<lambda>d. map (valor d) cs) datos\<rparr>"

text \<open>The cell of row \<open>i\<close> in the column named \<open>c\<close>.\<close>

definition celda :: "dataframe \<Rightarrow> nat \<Rightarrow> ustr \<Rightarrow> cell" where
  "celda df i c = cell_at (columns df) (rows df ! i) c"

text \<open>
  The local date and time of the instant \<open>ts\<close> seconds after the epoch, and the instants
  that \<open>fromtimestamp\<close> converts: the year of the local date lies in 1 to 9999, for the
  instant itself, for the instant 24 hours earlier and, when the offset of the zone has
  decreased in these 24 hours, for the instant earlier by the decrease.
\<close>

definition fecha_local :: "(int \<Rightarrow> int) \<Rightarrow> int \<Rightarrow> datetime" where
  "fecha_local off ts =
     (case civil_from_days ((ts + off ts) div 86400) of
        (y, m, d) \<Rightarrow>
          \<lparr>year = y, month = m, day = d,
           hour = ((ts + off ts) mod 86400) div 3600,
           minute = (((ts + off ts) mod 86400) mod 3600) div 60,
           second = ((ts + off ts) mod 86400) mod 60\<rparr>)"

definition anno_valido :: "(int \<Rightarrow> int) \<Rightarrow> int \<Rightarrow> bool" where
  "anno_valido off ts = (1 \<le> year (fecha_local off ts) \<and> year (fecha_local off ts) \<le> 9999)"

definition convertible :: "(int \<Rightarrow> int) \<Rightarrow> int \<Rightarrow> bool" where
  "convertible off ts =
     (anno_valido off ts \<and> anno_valido off (ts - 86400)
      \<and> (off ts < off (ts - 86400) \<longrightarrow> anno_valido off (ts + (off ts - off (ts - 86400)))))"

text \<open>A first field that \<open>int\<close> cannot read because of one of its characters.\<close>

definition no_numerico :: "ucd \<Rightarrow> ustr \<Rightarrow> bool" where
  "no_numerico U s =
     list_ex (\<lambda>c. \<not> int_space c \<and> c \<noteq> 43 \<and> c \<noteq> 45 \<and> c \<noteq> 95 \<and> digit U c = None) s"

subsection \<open>Reading the exported bytes back\<close>

text \<open>A code point that UTF-8 can encode: below 0x110000 and no surrogate.\<close>

definition escalar :: "codepoint \<Rightarrow> bool" where
  "escalar c = (c < 55296 \<or> (57344 \<le> c \<and> c < 1114112))"

definition texto_valido :: "env \<Rightarrow> dataframe \<Rightarrow> bool" where
  "texto_valido env df = list_all (list_all (list_all escalar)) (table_text env df)"

text \<open>A UTF-8 decoder (it stops at a truncated sequence).\<close>

fun utf8_decode :: "nat list \<Rightarrow> ustr" where
  "utf8_decode [] = []"
| "utf8_decode (b # bs) =
     (if b < 128 then b # utf8_decode bs
      else if b < 224 then
        (case bs of
           b1 # r \<Rightarrow> ((b - 192) * 64 + (b1 - 128)) # utf8_decode r
         | _ \<Rightarrow> [])
      else if b < 240 then
        (case bs of
           b1 # b2 # r \<Rightarrow> ((b - 224) * 4096 + (b1 - 128) * 64 + (b2 - 128)) # utf8_decode r
         | _ \<Rightarrow> [])
      else
        (case bs of
           b1 # b2 # b3 # r \<Rightarrow>
             ((b - 240) * 262144 + (b1 - 128) * 4096 + (b2 - 128) * 64 + (b3 - 128))
               # utf8_decode r
         | _ \<Rightarrow> []))"

definition quitar_bom :: "nat list \<Rightarrow> nat list" where
  "quitar_bom b = (if take 3 b = BOM then drop 3 b else b)"

text \<open>
  The specification speaks of re-parsing the bytes as a delimited table and names no
  reader. This one reads comma-separated records ended by \<open>\n\<close>, with fields in double
  quotes and a doubled quote for a quote. Its state: the finished records, the finished fields of the
  current record, the current field, where it stands (outside quotes, inside quotes, right
  after a quote met inside quotes) and whether the current record is still untouched.
\<close>

datatype modo = Libre | Citado | Cierre

fun csv_step ::
  "ustr list list \<times> ustr list \<times> ustr \<times> modo \<times> bool \<Rightarrow> codepoint
     \<Rightarrow> ustr list list \<times> ustr list \<times> ustr \<times> modo \<times> bool" where
  "csv_step (rs, fs, cur, m, fresh) c =
     (if m = Citado then
        (if c = 34 then (rs, fs, cur, Cierre, False) else (rs, fs, cur @ [c], Citado, False))
      else if m = Cierre \<and> c = 34 then (rs, fs, cur @ [34], Citado, False)
      else if c = 44 then (rs, fs @ [cur], [], Libre, False)
      else if c = 10 then (rs @ [if fresh then [] else fs @ [cur]], [], [], Libre, True)
      else if c = 34 \<and> m = Libre \<and> cur = [] then (rs, fs, cur, Citado, False)
      else (rs, fs, cur @ [c], Libre, False))"

definition csv_read :: "ustr \<Rightarrow> ustr list list" where
  "csv_read s =
     (case foldl csv_step ([], [], [], Libre, True) s of
        (rs, fs, cur, m, fresh) \<Rightarrow> if fresh then rs else rs @ [fs @ [cur]])"

definition releer :: "nat list \<Rightarrow> ustr list list" where
  "releer b = csv_read (utf8_decode (quitar_bom b))"

subsection \<open>The surroundings of the examples\<close>

text \<open>
  The entries of the Unicode tables for ASCII and for U+00B2 SUPERSCRIPT TWO, whose
  compatibility decomposition is the digit 2 (it has no canonical decomposition, is not a
  decimal digit, and lowers to itself), with the default limit of 4300 digits.
\<close>

definition ucd_basico :: ucd where
  "ucd_basico =
     \<lparr>decimal = (\<lambda>c. None), lower_no_ascii = (\<lambda>s. s), canonical = (\<lambda>c. [c]),
      compatibility = (\<lambda>c. if c = 178 then [50] else [c]), ccc = (\<lambda>c. 0),
      composite = (\<lambda>a b. None), max_str_digits = 4300\<rparr>"

text \<open>\<open>str(d)\<close> of a datetime: \<open>YYYY-MM-DD HH:MM:SS\<close>.\<close>

definition pad :: "nat \<Rightarrow> int \<Rightarrow> ustr" where
  "pad n v = replicate (n - length (str_nat (nat v))) 48 @ str_nat (nat v)"

definition isoformat :: "datetime \<Rightarrow> ustr" where
  "isoformat d =
     pad 4 (year d) @ [45] @ pad 2 (month d) @ [45] @ pad 2 (day d) @ [32]
     @ pad 2 (hour d) @ [58] @ pad 2 (minute d) @ [58] @ pad 2 (second d)"

text \<open>\<open>YYYY-MM-DD\<close>, the date alone.\<close>

definition isodate :: "datetime \<Rightarrow> ustr" where
  "isodate d = pad 4 (year d) @ [45] @ pad 2 (month d) @ [45] @ pad 2 (day d)"

text \<open>
  How pandas 1 and 2 print the timestamps of a column. When every timestamp of the column
  fits the nanosecond resolution (1677-09-21 00:12:44 to 2262-04-11 23:47:16) the column is
  a \<open>datetime64\<close> one, printed as dates alone when all its timestamps are at midnight and
  with \<open>HH:MM:SS\<close> otherwise, the empty cells aside. Otherwise the column holds the
  \<open>datetime\<close> objects, and each is printed by \<open>str\<close>.
\<close>

definition campos_fecha :: "datetime \<Rightarrow> int list" where
  "campos_fecha d = [year d, month d, day d, hour d, minute d, second d]"

fun menor_igual :: "int list \<Rightarrow> int list \<Rightarrow> bool" where
  "menor_igual (x # xs) (y # ys) = (x < y \<or> (x = y \<and> menor_igual xs ys))"
| "menor_igual xs ys = True"

fun en_nanosegundos :: "cell \<Rightarrow> bool" where
  "en_nanosegundos (Fecha d) =
     (menor_igual [1677, 9, 21, 0, 12, 44] (campos_fecha d)
      \<and> menor_igual (campos_fecha d) [2262, 4, 11, 23, 47, 16])"
| "en_nanosegundos v = True"

fun medianoche :: "cell \<Rightarrow> bool" where
  "medianoche (Fecha d) = (hour d = 0 \<and> minute d = 0 \<and> second d = 0)"
| "medianoche v = True"

definition fecha_pandas :: "cell list \<Rightarrow> datetime \<Rightarrow> ustr" where
  "fecha_pandas column d =
     (if list_all en_nanosegundos column \<and> list_all medianoche column
      then isodate d else isoformat d)"

text \<open>
  A machine on UTC with the given files and the given outcome of loading the table, whose
  standard output encodes every text (UTF-8).
\<close>

definition entorno :: "(ustr \<times> ustr) list \<Rightarrow> error \<times> ustr + (ustr \<rightharpoonup> ustr) \<Rightarrow> env" where
  "entorno fs ev =
     \<lparr>tablas = ucd_basico, utcoffset = (\<lambda>t. 0), archivos = map_of fs, eventos_json = ev,
      stdout = (\<lambda>s. None), fecha_texto = fecha_pandas\<rparr>"

text \<open>
  A standard output with the ASCII encoding (\<open>PYTHONIOENCODING=ascii\<close>, or the C locale):
  writing a text with a character outside ASCII raises UnicodeEncodeError.
\<close>

definition stdout_ascii :: "ustr \<Rightarrow> error option" where
  "stdout_ascii s = (if list_all (\<lambda>c. c < 128) s then None else Some UnicodeEncodeError)"

definition entorno_ascii :: "(ustr \<times> ustr) list \<Rightarrow> error \<times> ustr + (ustr \<rightharpoonup> ustr) \<Rightarrow> env" where
  "entorno_ascii fs ev = (entorno fs ev)\<lparr>stdout := stdout_ascii\<rparr>"

text \<open>What \<open>open("eventos.json")\<close> raises when there is no such file.\<close>

definition sin_eventos_json :: "error \<times> ustr + (ustr \<rightharpoonup> ustr)" where
  "sin_eventos_json =
     Inl (OSError, ascii ''[Errno 2] No such file or directory: '' @ [39]
                   @ ascii ''eventos.json'' @ [39])"

definition ruta :: ustr where
  "ruta = ascii ''uploads/queue_log''"

definition tabla_login :: "error \<times> ustr + (ustr \<rightharpoonup> ustr)" where
  "tabla_login = Inr (map_of [(ascii ''EVT1'', ascii ''Login'')])"

definition linea_login :: ustr where
  "linea_login = ascii ''1700000000|x|queueA|y|EVT1|z|5551234''"

definition linea_abc :: ustr where
  "linea_abc = ascii ''abc|x|queueB|y|EVT9|z|5559999''"

definition linea_grande :: ustr where
  "linea_grande = ascii ''1000000000000000000|x''"

text \<open>
  Midnight of 0001-01-01 and of 0001-01-02 on UTC, as first fields of the lines of a file.
\<close>

definition linea_primer_dia :: ustr where
  "linea_primer_dia = ascii ''-62135596800|x''"

definition linea_segundo_dia :: ustr where
  "linea_segundo_dia = ascii ''-62135510400|x''"

definition contenido_limites :: ustr where
  "contenido_limites = linea_primer_dia @ [10] @ linea_segundo_dia @ [10]"

text \<open>A file with the two lines of the scenarios, and the machine that holds it.\<close>

definition contenido_dos :: ustr where
  "contenido_dos = linea_login @ [10] @ linea_abc @ [10]"

definition entorno_dos :: env where
  "entorno_dos = entorno [(ruta, contenido_dos)] tabla_login"

text \<open>A small frame with a comma in a cell, a letter outside ASCII and an empty cell.\<close>

definition marco_ejemplo :: dataframe where
  "marco_ejemplo =
     \<lparr>columns = [ascii ''timestamp'', ascii ''cola''],
      rows = [[Str (ascii ''17''), Str (ascii ''a,b'')], [Str [233], NA]]\<rparr>"

text \<open>
  Two files that differ in one character: the first line of the one has no third field, the
  first line of the other has an empty third field. And the frames they are parsed to.
\<close>

definition contenido_ausente :: ustr where
  "contenido_ausente = ascii ''a|b'' @ [10] @ ascii ''a|b|c''"

definition contenido_vacio :: ustr where
  "contenido_vacio = ascii ''a|b|'' @ [10] @ ascii ''a|b|c''"

definition df_ausente :: dataframe where
  "df_ausente =
     \<lparr>columns = [ascii ''timestamp'', ascii ''fecha_legible'', ascii ''cola''],
      rows = [[Str (ascii ''a''), NA, NA], [Str (ascii ''a''), NA, Str (ascii ''c'')]]\<rparr>"

definition df_vacia :: dataframe where
  "df_vacia =
     \<lparr>columns = [ascii ''timestamp'', ascii ''fecha_legible'', ascii ''cola''],
      rows = [[Str (ascii ''a''), NA, Str []], [Str (ascii ''a''), NA, Str (ascii ''c'')]]\<rparr>"

text \<open>The frame of the file with the two lines.\<close>

definition df_dos :: dataframe where
  "df_dos =
     \<lparr>columns = [ascii ''timestamp'', ascii ''fecha_legible'', ascii ''cola'',
                 ascii ''evento'', ascii ''numero_telefono''],
      rows = [[Str (ascii ''1700000000''),
               Fecha \<lparr>year = 2023, month = 11, day = 14, hour = 22, minute = 13, second = 20\<rparr>,
               Str (ascii ''queueA''), Str (ascii ''Login''), Str (ascii ''5551234'')],
              [Str (ascii ''abc''), NA, Str (ascii ''queueB''), Str (ascii ''EVT9''),
               Str (ascii ''5559999'')]]\<rparr>"

section \<open>The filter on filenames\<close>

lemma dropWhile_until: "\<forall>x\<in>set xs. P x \<Longrightarrow> \<not> P y \<Longrightarrow> dropWhile P (xs @ y # ys) = y # ys"
  by (induction xs) auto

lemma takeWhile_until: "\<forall>x\<in>set xs. P x \<Longrightarrow> \<not> P y \<Longrightarrow> takeWhile P (xs @ y # ys) = xs"
  by (induction xs) auto

lemma rsplit1_last: "sep \<notin> set b \<Longrightarrow> rsplit1 sep (a @ sep # b) = [a, b]"
proof -
  assume h: "sep \<notin> set b"
  have t: "takeWhile (\<lambda>c. c \<noteq> sep) (rev b @ sep # rev a) = rev b"
    using h by (intro takeWhile_until) auto
  have d: "dropWhile (\<lambda>c. c \<noteq> sep) (rev b @ sep # rev a) = sep # rev a"
    using h by (intro dropWhile_until) auto
  show ?thesis by (simp add: rsplit1_def t d)
qed

lemma rsplit1_none: "sep \<notin> set s \<Longrightarrow> rsplit1 sep s = [s]"
proof -
  assume "sep \<notin> set s"
  then have "dropWhile (\<lambda>c. c \<noteq> sep) (rev s) = []" by auto
  then show ?thesis by (simp only: rsplit1_def Let_def list.case)
qed

lemma allowed_file_dot:
  "46 \<notin> set b \<Longrightarrow> allowed_file U (a @ 46 # b) = Inr (lower U b \<in> ALLOWED_EXTENSIONS)"
  by (simp add: allowed_file_def rsplit1_last item_def)

lemma lower_ascii_cong:
  "list_all (\<lambda>c. c < 128) b \<Longrightarrow> list_all (\<lambda>c. c < 128) b' \<Longrightarrow>
   map ascii_lower b = map ascii_lower b' \<Longrightarrow> lower U b = lower U b'"
  by (simp add: lower_def)

lemma allowed_file_ejemplos:
  "allowed_file ucd_basico (ascii ''llamadas.TXT'') = Inr True"
  "allowed_file ucd_basico (ascii ''llamadas.tar.Log'') = Inr True"
  "allowed_file ucd_basico (ascii ''queue_log'') = Inr True"
  "allowed_file ucd_basico (ascii ''queue_log.'') = Inr False"
  "allowed_file ucd_basico (ascii ''informe.xlsx'') = Inr False"
  "allowed_file ucd_basico (ascii ''.csv'') = Inr True"
  by (simp_all add: allowed_file_def rsplit1_def item_def lower_def ascii_lower_def
        ALLOWED_EXTENSIONS_def ascii_def)

text \<open>
  Claim C10. \<open>allowed_file\<close> never raises, and it accepts a filename exactly when the name has
  no dot, or the part after its last dot, lowercased, is \<open>txt\<close>, \<open>log\<close> or \<open>csv\<close>. In
  particular a name that ends in a dot is rejected, a name without a dot is accepted, and
  two ASCII extensions that differ only in the case of their letters are treated alike.
\<close>

theorem allowed_file_iff:
  "allowed_file U filename =
     Inr (46 \<notin> set filename \<or>
          (\<exists>a b. filename = a @ 46 # b \<and> 46 \<notin> set b \<and>
                 lower U b \<in> {ascii ''txt'', ascii ''log'', ascii ''csv''}))
   \<and> allowed_file U (a @ [46]) = Inr False
   \<and> (46 \<notin> set filename \<longrightarrow> allowed_file U filename = Inr True)
   \<and> (46 \<notin> set b \<and> 46 \<notin> set b' \<and> list_all (\<lambda>c. c < 128) b \<and> list_all (\<lambda>c. c < 128) b'
        \<and> map ascii_lower b = map ascii_lower b'
      \<longrightarrow> allowed_file U (a @ 46 # b) = allowed_file U (a' @ 46 # b'))"
proof (intro conjI impI)
  show "allowed_file U filename =
     Inr (46 \<notin> set filename \<or>
          (\<exists>a b. filename = a @ 46 # b \<and> 46 \<notin> set b \<and>
                 lower U b \<in> {ascii ''txt'', ascii ''log'', ascii ''csv''}))"
  proof (cases "46 \<in> set filename")
    case False
    then show ?thesis by (simp add: allowed_file_def)
  next
    case True
    then obtain p e where f: "filename = p @ 46 # e" and e: "46 \<notin> set e"
      by (meson split_list_last)
    have uniq: "\<And>a b. filename = a @ 46 # b \<Longrightarrow> 46 \<notin> set b \<Longrightarrow> b = e"
    proof -
      fix a b assume "filename = a @ 46 # b" "46 \<notin> set b"
      then have "rsplit1 46 filename = [a, b]" by (simp add: rsplit1_last)
      moreover have "rsplit1 46 filename = [p, e]" using f e by (simp add: rsplit1_last)
      ultimately show "b = e" by simp
    qed
    have "allowed_file U filename = Inr (lower U e \<in> ALLOWED_EXTENSIONS)"
      using f e by (simp add: allowed_file_dot)
    moreover have "(\<exists>a b. filename = a @ 46 # b \<and> 46 \<notin> set b \<and>
                 lower U b \<in> {ascii ''txt'', ascii ''log'', ascii ''csv''})
        = (lower U e \<in> ALLOWED_EXTENSIONS)"
      using f e uniq unfolding ALLOWED_EXTENSIONS_def by blast
    ultimately show ?thesis using True by simp
  qed
next
  have "allowed_file U (a @ 46 # []) = Inr (lower U [] \<in> ALLOWED_EXTENSIONS)"
    by (rule allowed_file_dot) simp
  then show "allowed_file U (a @ [46]) = Inr False"
    by (simp add: lower_def ALLOWED_EXTENSIONS_def ascii_def)
next
  assume "46 \<notin> set filename"
  then show "allowed_file U filename = Inr True" by (simp add: allowed_file_def)
next
  assume h: "46 \<notin> set b \<and> 46 \<notin> set b' \<and> list_all (\<lambda>c. c < 128) b \<and> list_all (\<lambda>c. c < 128) b'
        \<and> map ascii_lower b = map ascii_lower b'"
  then have "lower U b = lower U b'" using lower_ascii_cong by blast
  then show "allowed_file U (a @ 46 # b) = allowed_file U (a' @ 46 # b')"
    using h by (simp add: allowed_file_dot)
qed

theorem allowed_file_iff_witness:
  "allowed_file ucd_basico (ascii ''queue_log'' @ [46]) = Inr False
   \<and> allowed_file ucd_basico (ascii ''queue_log'') = Inr True
   \<and> allowed_file ucd_basico (ascii ''a'' @ 46 # ascii ''TXT'')
       = allowed_file ucd_basico (ascii ''b'' @ 46 # ascii ''txt'')
   \<and> allowed_file ucd_basico (ascii ''b'' @ 46 # ascii ''txt'') = Inr True"
proof -
  have h1: "46 \<notin> set (ascii ''queue_log'')" by (simp add: ascii_def)
  have h2: "46 \<notin> set (ascii ''TXT'') \<and> 46 \<notin> set (ascii ''txt'')
      \<and> list_all (\<lambda>c. c < 128) (ascii ''TXT'') \<and> list_all (\<lambda>c. c < 128) (ascii ''txt'')
      \<and> map ascii_lower (ascii ''TXT'') = map ascii_lower (ascii ''txt'')"
    by (simp add: ascii_def ascii_lower_def)
  have h3: "allowed_file ucd_basico (ascii ''b'' @ 46 # ascii ''txt'') = Inr True"
    by (simp add: allowed_file_def rsplit1_def item_def lower_def ascii_lower_def
        ALLOWED_EXTENSIONS_def ascii_def)
  from allowed_file_iff[of ucd_basico "ascii ''queue_log''" "ascii ''queue_log''"
      "ascii ''TXT''" "ascii ''txt''"]
  have a: "allowed_file ucd_basico (ascii ''queue_log'' @ [46]) = Inr False"
    and b: "46 \<notin> set (ascii ''queue_log'') \<longrightarrow> allowed_file ucd_basico (ascii ''queue_log'') = Inr True"
    by blast+
  from allowed_file_iff[of ucd_basico "ascii ''queue_log''" "ascii ''a''"
      "ascii ''TXT''" "ascii ''txt''" "ascii ''b''"]
  have c: "46 \<notin> set (ascii ''TXT'') \<and> 46 \<notin> set (ascii ''txt'')
      \<and> list_all (\<lambda>c. c < 128) (ascii ''TXT'') \<and> list_all (\<lambda>c. c < 128) (ascii ''txt'')
      \<and> map ascii_lower (ascii ''TXT'') = map ascii_lower (ascii ''txt'')
      \<longrightarrow> allowed_file ucd_basico (ascii ''a'' @ 46 # ascii ''TXT'')
       = allowed_file ucd_basico (ascii ''b'' @ 46 # ascii ''txt'')"
    by blast
  show ?thesis using a b c h1 h2 h3 by blast
qed

section \<open>The frame that generar_dataframe returns\<close>

lemma str_nat_not_Nil: "str_nat n \<noteq> []"
  by (subst str_nat.simps) simp

lemma str_nat_inj: "str_nat n = str_nat m \<Longrightarrow> n = m"
proof (induction n arbitrary: m rule: str_nat.induct)
  case (1 n)
  show ?case
  proof (cases "n < 10")
    case True
    show ?thesis
    proof (cases "m < 10")
      case True
      with \<open>n < 10\<close> "1.prems" show ?thesis by (simp add: str_nat.simps[of n] str_nat.simps[of m])
    next
      case False
      with \<open>n < 10\<close> "1.prems" show ?thesis
        using str_nat_not_Nil[of "m div 10"]
        by (simp add: str_nat.simps[of n] str_nat.simps[of m] Cons_eq_append_conv)
    qed
  next
    case False
    show ?thesis
    proof (cases "m < 10")
      case True
      with \<open>\<not> n < 10\<close> "1.prems" show ?thesis
        using str_nat_not_Nil[of "n div 10"]
        by (simp add: str_nat.simps[of n] str_nat.simps[of m] append_eq_Cons_conv)
    next
      case False
      with \<open>\<not> n < 10\<close> "1.prems" have e: "str_nat (n div 10) = str_nat (m div 10)" and r: "n mod 10 = m mod 10"
        by (simp_all add: str_nat.simps[of n] str_nat.simps[of m])
      from "1.IH"[OF \<open>\<not> n < 10\<close> e] have "n div 10 = m div 10" .
      with r show ?thesis by (metis div_mult_mod_eq)
    qed
  qed
qed

lemma col_inj [simp]: "(col i = col j) = (i = j)"
  by (auto simp: col_def dest: str_nat_inj)

lemma col_not_fecha [simp]: "col i \<noteq> ascii ''fecha_legible''" "ascii ''fecha_legible'' \<noteq> col i"
  by (simp_all add: col_def ascii_def)

lemma fold_cols_lookup:
  "map_of (foldl (\<lambda>d (i, v). AList.update (col i) (g v) d) d0 (enumerate n xs)) (col k) =
     (if n \<le> k \<and> k < n + length xs then Some (g (xs ! (k - n))) else map_of d0 (col k))"
proof (induction xs arbitrary: n d0)
  case Nil
  then show ?case by auto
next
  case (Cons x xs)
  show ?case
    by (auto simp add: Cons.IH update_conv' nth_Cons' Suc_diff_le)
qed

lemma fold_cols_other:
  "(\<And>i. col i \<noteq> key) \<Longrightarrow>
   map_of (foldl (\<lambda>d (i, v). AList.update (col i) (g v) d) d0 (enumerate n xs)) key = map_of d0 key"
proof (induction xs arbitrary: n d0)
  case Nil
  then show ?case by simp
next
  case (Cons x xs)
  have "key \<noteq> col n" using Cons.prems[of n] by simp
  then show ?case using Cons by (simp add: update_conv')
qed

lemma valor_fila_col: "valor (fila env l) (col k) = campo env l k"
  by (simp add: valor_def fila_def Let_def update_conv' fold_cols_lookup campo_def partes_de_def)

lemma valor_fila_fecha:
  "valor (fila env l) (ascii ''fecha_legible'') = fecha_legible env (partes_de l)"
  by (simp add: valor_def fila_def Let_def update_conv' partes_de_def)

lemma fila_has_col: "(map_of (fila env l) (col k) \<noteq> None) = (k < length (partes_de l))"
  by (simp add: fila_def Let_def update_conv' fold_cols_lookup partes_de_def)

lemma fila_has_fecha: "map_of (fila env l) (ascii ''fecha_legible'') \<noteq> None"
  by (simp add: fila_def Let_def update_conv')

lemma claves_set:
  "set (foldl (\<lambda>acc d. acc @ filter (\<lambda>k. k \<notin> set acc) (map fst d)) a datos)
     = set a \<union> (\<Union>d\<in>set datos. fst ` set d)"
  by (induction datos arbitrary: a) auto

lemma DataFrame_marco:
  "\<exists>cs. DataFrame datos = marco datos cs \<and> set cs = (\<Union>d\<in>set datos. fst ` set d)"
  by (simp add: DataFrame_def Let_def marco_def valor_def claves_set)

lemma cell_at_valor:
  "c \<in> set cs \<Longrightarrow> cell_at cs (map (valor d) cs) c = valor d c"
  by (simp add: cell_at_def map_of_zip_map)

lemma getitem_marco:
  "set cs' \<subseteq> set cs \<Longrightarrow> getitem (marco datos cs) cs' = Inr (marco datos cs')"
  by (auto simp add: getitem_def marco_def cell_at_valor)

lemma list_index_Inr: "x \<in> set xs \<Longrightarrow> \<exists>k. list_index xs x = Inr k \<and> k < length xs"
  by (induction xs) auto

lemma set_list_insert: "set (list_insert xs i x) = insert x (set xs)"
proof -
  have "set (list_insert xs i x) = insert x (set (take i xs @ drop i xs))"
    unfolding list_insert_def by (simp only: set_append set_simps Un_insert_right)
  then show ?thesis by (simp only: append_take_drop_id)
qed

lemma set_remove1_insert: "x \<in> set xs \<Longrightarrow> insert x (set (remove1 x xs)) = set xs"
proof (rule set_eqI)
  fix y assume "x \<in> set xs"
  then show "(y \<in> insert x (set (remove1 x xs))) = (y \<in> set xs)"
    by (cases "y = x") simp_all
qed

lemma list_index_ex: "x \<in> set xs \<Longrightarrow> \<exists>k. list_index xs x = Inr k"
  by (induction xs) auto

lemma columns_marco: "columns (marco datos cs) = cs"
  by (simp add: marco_def)

lemma reordenar_con_indice:
  assumes "col 0 \<in> set cs" "ascii ''fecha_legible'' \<in> set cs"
    and "list_index (remove1 (ascii ''fecha_legible'') cs) (col 0) = Inr k"
  shows "reordenar (marco datos cs) =
           getitem (marco datos cs)
             (list_insert (remove1 (ascii ''fecha_legible'') cs) (k + 1) (ascii ''fecha_legible''))"
  unfolding reordenar_def columns_marco list_remove_def
  by (simp only: assms if_True sum.case simp_thms)

lemma reordenar_marco:
  "\<exists>cs'. reordenar (marco datos cs) = Inr (marco datos cs') \<and> set cs' = set cs"
proof (cases "col 0 \<in> set cs \<and> ascii ''fecha_legible'' \<in> set cs")
  case False
  then have "\<not> (col 0 \<in> set (columns (marco datos cs)) \<and>
               ascii ''fecha_legible'' \<in> set (columns (marco datos cs)))"
    by (simp only: columns_marco not_False_eq_True)
  then have "reordenar (marco datos cs) = Inr (marco datos cs)"
    unfolding reordenar_def by (rule if_not_P)
  then show ?thesis by (intro exI conjI) (assumption, rule refl)
next
  case True
  then have c0: "col 0 \<in> set cs" and fc: "ascii ''fecha_legible'' \<in> set cs" by simp_all
  have "col 0 \<in> set (remove1 (ascii ''fecha_legible'') cs)" using c0 by simp
  from list_index_ex[OF this]
  have "\<exists>k. list_index (remove1 (ascii ''fecha_legible'') cs) (col 0) = Inr k" .
  then show ?thesis
  proof (elim exE)
    fix k assume k: "list_index (remove1 (ascii ''fecha_legible'') cs) (col 0) = Inr k"
    let ?c2 = "list_insert (remove1 (ascii ''fecha_legible'') cs) (k + 1) (ascii ''fecha_legible'')"
    have s: "set ?c2 = set cs"
      by (simp only: set_list_insert set_remove1_insert[OF fc])
    have "reordenar (marco datos cs) = getitem (marco datos cs) ?c2"
      by (rule reordenar_con_indice[OF c0 fc k])
    also have "\<dots> = Inr (marco datos ?c2)"
      by (rule getitem_marco) (simp only: s subset_refl)
    finally show ?thesis using s by (intro exI conjI)
  qed
qed

lemma partes_de_not_Nil: "partes_de l \<noteq> []"
proof -
  have "split_on sep s \<noteq> []" for sep s by (induction s) (auto split: list.splits)
  then show ?thesis by (simp add: partes_de_def)
qed

lemma clave_col:
  "(col k \<in> (\<Union>d\<in>set (map (fila env) lineas). fst ` set d)) = presente lineas k"
proof -
  have "(col k \<in> fst ` set (fila env l)) = (k < length (partes_de l))" for l
    using fila_has_col[of env l k] by (simp add: map_of_eq_None_iff)
  then show ?thesis by (auto simp add: presente_def list_ex_iff)
qed

lemma clave_fecha:
  "(ascii ''fecha_legible'' \<in> (\<Union>d\<in>set (map (fila env) lineas). fst ` set d)) = (lineas \<noteq> [])"
proof -
  have "ascii ''fecha_legible'' \<in> fst ` set (fila env l)" for l
    using fila_has_fecha[of env l] by (simp add: map_of_eq_None_iff)
  then show ?thesis by (cases lineas) auto
qed

lemma presente_0: "presente lineas 0 = (lineas \<noteq> [])"
  using partes_de_not_Nil by (cases lineas) (auto simp add: presente_def)

lemma presente_Nil: "presente [] k = False"
  by (simp add: presente_def)

lemma DataFrame_filas:
  "\<exists>cs. DataFrame (map (fila env) lineas) = marco (map (fila env) lineas) cs
        \<and> (\<forall>k. (col k \<in> set cs) = presente lineas k)
        \<and> ((ascii ''fecha_legible'' \<in> set cs) = (lineas \<noteq> []))"
proof -
  from DataFrame_marco[of "map (fila env) lineas"]
  obtain cs where d: "DataFrame (map (fila env) lineas) = marco (map (fila env) lineas) cs"
    and s: "set cs = (\<Union>d\<in>set (map (fila env) lineas). fst ` set d)"
    by (elim exE conjE)
  have "(col k \<in> set cs) = presente lineas k" for k
    by (simp only: s clave_col)
  moreover have "(ascii ''fecha_legible'' \<in> set cs) = (lineas \<noteq> [])"
    by (simp only: s clave_fecha)
  ultimately show ?thesis using d by (intro exI conjI allI)
qed

lemma columnas_finales_eq:
  assumes "\<And>k. (col k \<in> set cs) = presente lineas k"
    and "(ascii ''fecha_legible'' \<in> set cs) = (lineas \<noteq> [])"
  shows "filter (\<lambda>c. c \<in> set cs) [col 0, ascii ''fecha_legible'', col 2, col 4, col 6]
           = finales lineas"
  unfolding finales_def by (simp add: assms presente_0)

lemma ascii_nombres [simp]:
  "ascii ''evento'' \<noteq> ascii ''timestamp''" "ascii ''evento'' \<noteq> ascii ''fecha_legible''"
  "ascii ''evento'' \<noteq> ascii ''cola''" "ascii ''evento'' \<noteq> ascii ''numero_telefono''"
  by (simp_all add: ascii_def)

lemma map_of_renombres [simp]:
  "map_of renombres (col 0) = Some (ascii ''timestamp'')"
  "map_of renombres (col 2) = Some (ascii ''cola'')"
  "map_of renombres (col 4) = Some (ascii ''evento'')"
  "map_of renombres (col 6) = Some (ascii ''numero_telefono'')"
  "map_of renombres (ascii ''fecha_legible'') = None"
  by (simp_all add: renombres_def)

lemma rename_finales:
  "rename renombres (marco (map (fila env) lineas) (finales lineas))
     = \<lparr>columns = columnas_salida lineas,
        rows = map (\<lambda>l. [campo env l 0, fecha_legible env (partes_de l)]
                 @ (if presente lineas 2 then [campo env l 2] else [])
                 @ (if presente lineas 4 then [campo env l 4] else [])
                 @ (if presente lineas 6 then [campo env l 6] else [])) lineas\<rparr>"
proof (cases "lineas = []")
  case True
  then show ?thesis
    by (simp add: rename_def marco_def finales_def columnas_salida_def presente_Nil)
next
  case False
  then show ?thesis
    by (simp add: rename_def marco_def finales_def columnas_salida_def valor_fila_col
          valor_fila_fecha)
qed

lemma traducir_salida:
  assumes "aviso_posible env"
  shows "traducir env \<lparr>columns = columnas_salida lineas,
        rows = map (\<lambda>l. [campo env l 0, fecha_legible env (partes_de l)]
                 @ (if presente lineas 2 then [campo env l 2] else [])
                 @ (if presente lineas 4 then [campo env l 4] else [])
                 @ (if presente lineas 6 then [campo env l 6] else [])) lineas\<rparr>
   = Inr \<lparr>columns = columnas_salida lineas, rows = map (fila_salida env lineas) lineas\<rparr>"
proof (cases "eventos_json env")
  case (Inl e)
  then show ?thesis
    using assms
    by (cases e) (simp add: traducir_def traducir_celda_def fila_salida_def aviso_posible_def)
next
  case (Inr t)
  show ?thesis
  proof (cases "lineas = []")
    case True
    then show ?thesis
      by (simp add: traducir_def Inr columnas_salida_def replace_column_def)
  next
    case False
    then show ?thesis
      by (simp add: traducir_def Inr columnas_salida_def replace_column_def traducir_celda_def
            fila_salida_def ascii_def)
  qed
qed

lemma traducir_aviso:
  assumes "eventos_json env = Inl (e, texto)" and "stdout env (aviso texto) = Some err"
  shows "traducir env df = Inl err"
  using assms by (simp add: traducir_def)

lemma generar_dataframe_traducir:
  assumes "archivos env p = Some contenido"
  shows "generar_dataframe env p =
           traducir env
             \<lparr>columns = columnas_salida (readlines contenido),
              rows = map (\<lambda>l. [campo env l 0, fecha_legible env (partes_de l)]
                 @ (if presente (readlines contenido) 2 then [campo env l 2] else [])
                 @ (if presente (readlines contenido) 4 then [campo env l 4] else [])
                 @ (if presente (readlines contenido) 6 then [campo env l 6] else []))
                (readlines contenido)\<rparr>"
proof -
  let ?ls = "readlines contenido"
  let ?datos = "map (fila env) ?ls"
  from DataFrame_filas[of env ?ls] obtain cs where
    d: "DataFrame ?datos = marco ?datos cs"
    and k: "\<And>k. (col k \<in> set cs) = presente ?ls k"
    and f: "(ascii ''fecha_legible'' \<in> set cs) = (?ls \<noteq> [])"
    by (elim exE conjE) blast
  from reordenar_marco[of ?datos cs] obtain cs' where
    r: "reordenar (marco ?datos cs) = Inr (marco ?datos cs')" and s: "set cs' = set cs"
    by (elim exE conjE)
  have cf: "filter (\<lambda>c. c \<in> set cs') [col 0, ascii ''fecha_legible'', col 2, col 4, col 6]
           = finales ?ls"
    unfolding s by (rule columnas_finales_eq[OF k f])
  have sub: "set (finales ?ls) \<subseteq> set cs'"
    unfolding cf[symmetric] by auto
  have g: "getitem (marco ?datos cs') (finales ?ls) = Inr (marco ?datos (finales ?ls))"
    by (rule getitem_marco[OF sub])
  show ?thesis
    unfolding generar_dataframe_def
    by (simp only: assms option.case Let_def d r sum.case columns_marco cf g rename_finales)
qed

text \<open>
  The result of \<open>generar_dataframe\<close> for a file that opens: the frame of the lines when
  the table loads or the warning can be printed, and the exception of \<open>print\<close> otherwise.
\<close>

lemma generar_dataframe_eq:
  assumes "archivos env p = Some contenido" and "aviso_posible env"
  shows "generar_dataframe env p =
           Inr \<lparr>columns = columnas_salida (readlines contenido),
                rows = map (fila_salida env (readlines contenido)) (readlines contenido)\<rparr>"
  unfolding generar_dataframe_traducir[OF assms(1)] by (rule traducir_salida[OF assms(2)])

lemma generar_dataframe_aviso:
  assumes "archivos env p = Some contenido"
    and "eventos_json env = Inl (e, texto)" and "stdout env (aviso texto) = Some err"
  shows "generar_dataframe env p = Inl err"
  unfolding generar_dataframe_traducir[OF assms(1)] by (rule traducir_aviso[OF assms(2,3)])

lemma generar_dataframe_Inr:
  assumes "archivos env p = Some contenido"
  shows "(\<exists>df. generar_dataframe env p = Inr df) = aviso_posible env"
proof (cases "aviso_posible env")
  case True
  then show ?thesis by (simp add: generar_dataframe_eq[OF assms True])
next
  case False
  then obtain e texto err where "eventos_json env = Inl (e, texto)"
    and "stdout env (aviso texto) = Some err"
    by (auto simp add: aviso_posible_def split: sum.splits prod.splits)
  then show ?thesis using False by (simp add: generar_dataframe_aviso[OF assms])
qed

lemma aviso_posible_entorno [simp]: "aviso_posible (entorno fs (Inr t))"
  by (simp add: aviso_posible_def entorno_def)

lemma aviso_posible_utf8 [simp]: "aviso_posible (entorno fs (Inl x))"
  by (cases x) (simp add: aviso_posible_def entorno_def)

lemma aviso_posible_login [simp]: "aviso_posible (entorno fs tabla_login)"
  by (simp add: tabla_login_def)

lemma aviso_posible_dos [simp]: "aviso_posible entorno_dos"
  by (simp add: entorno_dos_def)


section \<open>Evaluating the library functions of the examples\<close>

lemma local_eq:
  "local off u = (if anno_valido off u then Inr (u + off u) else Inl ValueError)"
  unfolding local_def anno_valido_def fecha_local_def MINYEAR_def MAXYEAR_def
  by (cases "civil_from_days ((u + off u) div 86400)") auto

lemma fromtimestamp_eq:
  "fromtimestamp off ts = (if convertible off ts then Inr (fecha_local off ts) else Inl ValueError)"
proof -
  obtain y m d where c: "civil_from_days ((ts + off ts) div 86400) = (y, m, d)"
    by (cases "civil_from_days ((ts + off ts) div 86400)") 
  have t: "ts + off ts - (ts - 86400 + off (ts - 86400)) - 86400 = off ts - off (ts - 86400)"
    by simp
  show ?thesis
    unfolding fromtimestamp_def Let_def local_eq max_fold_seconds_def convertible_def
    by (simp only: c t fecha_local_def prod.case) (simp add: )
qed

lemma civil_19675: "civil_from_days 19675 = (2023, 11, 14)"
  unfolding civil_from_days_def Let_def by simp

lemma civil_19674: "civil_from_days 19674 = (2023, 11, 13)"
  unfolding civil_from_days_def Let_def by simp

lemma fecha_local_1700000000:
  "fecha_local (\<lambda>t. 0) 1700000000 =
     \<lparr>year = 2023, month = 11, day = 14, hour = 22, minute = 13, second = 20\<rparr>"
proof -
  have "(1700000000::int) div 86400 = 19675" "(1700000000::int) mod 86400 = 80000" by simp_all
  then show ?thesis unfolding fecha_local_def by (simp add: civil_19675)
qed

lemma fecha_local_1699913600:
  "fecha_local (\<lambda>t. 0) 1699913600 =
     \<lparr>year = 2023, month = 11, day = 13, hour = 22, minute = 13, second = 20\<rparr>"
proof -
  have "(1699913600::int) div 86400 = 19674" "(1699913600::int) mod 86400 = 80000" by simp_all
  then show ?thesis unfolding fecha_local_def by (simp add: civil_19674)
qed

lemma convertible_1700000000: "convertible (\<lambda>t. 0) 1700000000"
  by (simp add: convertible_def anno_valido_def fecha_local_1700000000 fecha_local_1699913600)

lemma fromtimestamp_1700000000:
  "fromtimestamp (\<lambda>t. 0) 1700000000 =
     Inr \<lparr>year = 2023, month = 11, day = 14, hour = 22, minute = 13, second = 20\<rparr>"
  by (simp add: fromtimestamp_eq convertible_1700000000 fecha_local_1700000000)

lemma civil_grande: "civil_from_days 11574074074074 = (31688740476, 10, 23)"
  unfolding civil_from_days_def Let_def by simp

lemma fromtimestamp_grande: "fromtimestamp (\<lambda>t. 0) 1000000000000000000 = Inl ValueError"
proof -
  have "(1000000000000000000::int) div 86400 = 11574074074074" by simp
  then have "year (fecha_local (\<lambda>t. 0) 1000000000000000000) = 31688740476"
    unfolding fecha_local_def by (simp add: civil_grande)
  then show ?thesis by (simp add: fromtimestamp_eq convertible_def anno_valido_def)
qed

text \<open>
  The first and the last instants that a machine on UTC converts: the first local day of
  the year 1 is not converted, the local date of 24 hours earlier being in the year 0.
\<close>

lemma civil_limites:
  "civil_from_days (- 719163) = (0, 12, 31)"
  "civil_from_days (- 719162) = (1, 1, 1)"
  "civil_from_days (- 719161) = (1, 1, 2)"
  "civil_from_days 2932895 = (9999, 12, 30)"
  "civil_from_days 2932896 = (9999, 12, 31)"
  "civil_from_days 2932897 = (10000, 1, 1)"
  unfolding civil_from_days_def Let_def by simp_all

lemma fecha_local_limites:
  "fecha_local (\<lambda>t. 0) (- 62135683200) =
     \<lparr>year = 0, month = 12, day = 31, hour = 0, minute = 0, second = 0\<rparr>"
  "fecha_local (\<lambda>t. 0) (- 62135596800) =
     \<lparr>year = 1, month = 1, day = 1, hour = 0, minute = 0, second = 0\<rparr>"
  "fecha_local (\<lambda>t. 0) (- 62135510400) =
     \<lparr>year = 1, month = 1, day = 2, hour = 0, minute = 0, second = 0\<rparr>"
  "fecha_local (\<lambda>t. 0) 253402214399 =
     \<lparr>year = 9999, month = 12, day = 30, hour = 23, minute = 59, second = 59\<rparr>"
  "fecha_local (\<lambda>t. 0) 253402300799 =
     \<lparr>year = 9999, month = 12, day = 31, hour = 23, minute = 59, second = 59\<rparr>"
  "fecha_local (\<lambda>t. 0) 253402300800 =
     \<lparr>year = 10000, month = 1, day = 1, hour = 0, minute = 0, second = 0\<rparr>"
proof -
  have d: "(- 62135683200::int) div 86400 = - 719163" "(- 62135683200::int) mod 86400 = 0"
    "(- 62135596800::int) div 86400 = - 719162" "(- 62135596800::int) mod 86400 = 0"
    "(- 62135510400::int) div 86400 = - 719161" "(- 62135510400::int) mod 86400 = 0"
    "(253402214399::int) div 86400 = 2932895" "(253402214399::int) mod 86400 = 86399"
    "(253402300799::int) div 86400 = 2932896" "(253402300799::int) mod 86400 = 86399"
    "(253402300800::int) div 86400 = 2932897" "(253402300800::int) mod 86400 = 0"
    by simp_all
  show "fecha_local (\<lambda>t. 0) (- 62135683200) =
     \<lparr>year = 0, month = 12, day = 31, hour = 0, minute = 0, second = 0\<rparr>"
    unfolding fecha_local_def by (simp add: d civil_limites)
  show "fecha_local (\<lambda>t. 0) (- 62135596800) =
     \<lparr>year = 1, month = 1, day = 1, hour = 0, minute = 0, second = 0\<rparr>"
    unfolding fecha_local_def by (simp add: d civil_limites)
  show "fecha_local (\<lambda>t. 0) (- 62135510400) =
     \<lparr>year = 1, month = 1, day = 2, hour = 0, minute = 0, second = 0\<rparr>"
    unfolding fecha_local_def by (simp add: d civil_limites)
  show "fecha_local (\<lambda>t. 0) 253402214399 =
     \<lparr>year = 9999, month = 12, day = 30, hour = 23, minute = 59, second = 59\<rparr>"
    unfolding fecha_local_def by (simp add: d civil_limites)
  show "fecha_local (\<lambda>t. 0) 253402300799 =
     \<lparr>year = 9999, month = 12, day = 31, hour = 23, minute = 59, second = 59\<rparr>"
    unfolding fecha_local_def by (simp add: d civil_limites)
  show "fecha_local (\<lambda>t. 0) 253402300800 =
     \<lparr>year = 10000, month = 1, day = 1, hour = 0, minute = 0, second = 0\<rparr>"
    unfolding fecha_local_def by (simp add: d civil_limites)
qed

lemma fromtimestamp_limites:
  "fromtimestamp (\<lambda>t. 0) (- 62135596800) = Inl ValueError"
  "fromtimestamp (\<lambda>t. 0) (- 62135510400) =
     Inr \<lparr>year = 1, month = 1, day = 2, hour = 0, minute = 0, second = 0\<rparr>"
  "fromtimestamp (\<lambda>t. 0) 253402300799 =
     Inr \<lparr>year = 9999, month = 12, day = 31, hour = 23, minute = 59, second = 59\<rparr>"
  "fromtimestamp (\<lambda>t. 0) 253402300800 = Inl ValueError"
  by (simp_all add: fromtimestamp_eq convertible_def anno_valido_def fecha_local_limites)

lemma decompose_basico: "178 \<notin> set s \<Longrightarrow> decompose ucd_basico k s = s"
  by (induction s) (auto simp add: decompose_def ucd_basico_def)

lemma foldl_cons_rev: "foldl (\<lambda>acc c. c # acc) a s = rev s @ a"
  by (induction s arbitrary: a) auto

lemma reorder_ins_basico: "reorder_ins ucd_basico c acc = c # acc"
  by (cases acc) (simp_all add: ucd_basico_def)

lemma canonical_order_basico: "canonical_order ucd_basico s = s"
  by (simp add: canonical_order_def reorder_ins_basico foldl_cons_rev)

lemma compose_step_basico:
  "compose_step ucd_basico (fin, seg) c = (if seg = [] then (fin, [c]) else (fin @ seg, [c]))"
  by (cases seg) (simp_all add: compose_step_def ucd_basico_def)

lemma compose_basico_aux:
  "(case foldl (compose_step ucd_basico) (fin, seg) s of (f, g) \<Rightarrow> f @ g) = fin @ seg @ s"
proof (induction s arbitrary: fin seg)
  case Nil
  then show ?case by simp
next
  case (Cons c s)
  show ?case by (simp add: compose_step_basico Cons.IH)
qed

lemma compose_basico: "compose ucd_basico s = s"
  using compose_basico_aux[of "[]" "[]" s] by (simp add: compose_def)

lemma normalize_basico: "178 \<notin> set s \<Longrightarrow> normalize ucd_basico form s = s"
  by (simp add: normalize_def Let_def decompose_basico canonical_order_basico compose_basico)

lemma decompose_superindice:
  "decompose ucd_basico True [178] = [50]" "decompose ucd_basico False [178] = [178]"
  by (simp_all add: decompose_def ucd_basico_def)

lemma normalize_superindice:
  "normalize ucd_basico NFKC [178] = [50]" "normalize ucd_basico NFC [178] = [178]"
  by (simp_all add: normalize_def Let_def canonical_order_basico compose_basico
        decompose_superindice)

lemma max_str_digits_basico: "max_str_digits ucd_basico = 4300"
  by (simp add: ucd_basico_def)

lemma civil_from_days_ejemplos:
  "civil_from_days 0 = (1970, 1, 1)"
  "civil_from_days (- 1) = (1969, 12, 31)"
  "civil_from_days 11016 = (2000, 2, 29)"
  "civil_from_days (- 719162) = (1, 1, 1)"
  "civil_from_days 2932896 = (9999, 12, 31)"
  unfolding civil_from_days_def Let_def by simp_all

section \<open>The scenarios of the specification\<close>

lemmas evaluar = strip_def strip_with_def isspace_def ascii_def partes_de_def readlines_def
  py_int_def int_space_def digit_def item_def max_str_digits_basico

lemma partes_login:
  "partes_de linea_login = [ascii ''1700000000'', ascii ''x'', ascii ''queueA'', ascii ''y'',
     ascii ''EVT1'', ascii ''z'', ascii ''5551234'']"
  by (simp add: linea_login_def evaluar)

lemma py_int_login: "py_int ucd_basico (ascii ''1700000000'') = Inr 1700000000"
  by (simp add: evaluar)

lemma escenario_login:
  "generar_dataframe (entorno [(ruta, linea_login)] tabla_login) ruta =
     Inr \<lparr>columns = [ascii ''timestamp'', ascii ''fecha_legible'', ascii ''cola'',
                      ascii ''evento'', ascii ''numero_telefono''],
          rows = [[Str (ascii ''1700000000''),
                   Fecha \<lparr>year = 2023, month = 11, day = 14, hour = 22, minute = 13, second = 20\<rparr>,
                   Str (ascii ''queueA''), Str (ascii ''Login''), Str (ascii ''5551234'')]]\<rparr>"
proof -
  have a: "archivos (entorno [(ruta, linea_login)] tabla_login) ruta = Some linea_login"
    by (simp add: entorno_def)
  have rl: "readlines linea_login = [linea_login]"
    by (simp add: linea_login_def evaluar)
  have f: "fecha_legible (entorno [(ruta, linea_login)] tabla_login) (partes_de linea_login)
      = Fecha \<lparr>year = 2023, month = 11, day = 14, hour = 22, minute = 13, second = 20\<rparr>"
    by (simp add: fecha_legible_def partes_login item_def entorno_def py_int_login
          fromtimestamp_1700000000)
  have c: "campo (entorno [(ruta, linea_login)] tabla_login) linea_login 0 = Str (ascii ''1700000000'')"
    "campo (entorno [(ruta, linea_login)] tabla_login) linea_login 2 = Str (ascii ''queueA'')"
    "campo (entorno [(ruta, linea_login)] tabla_login) linea_login 4 = Str (ascii ''EVT1'')"
    "campo (entorno [(ruta, linea_login)] tabla_login) linea_login 6 = Str (ascii ''5551234'')"
    by (simp_all add: campo_def partes_login entorno_def normalize_basico strip_def strip_with_def
          isspace_def ascii_def)
  have t: "traducir_celda (entorno [(ruta, linea_login)] tabla_login) (Str (ascii ''EVT1''))
      = Str (ascii ''Login'')"
    by (simp add: traducir_celda_def entorno_def tabla_login_def replace_cell_def ascii_def)
  have p: "presente [linea_login] 2" "presente [linea_login] 4" "presente [linea_login] 6"
    by (simp_all add: presente_def partes_login)
  show ?thesis
    unfolding generar_dataframe_eq[OF a aviso_posible_login] rl
    by (simp add: columnas_salida_def fila_salida_def p c f t)
qed

section \<open>Cells of the frame and the two-line example\<close>

lemma campo_ausente: "\<not> presente ls k \<Longrightarrow> l \<in> set ls \<Longrightarrow> campo env l k = NA"
  by (auto simp add: presente_def list_ex_iff campo_def)

lemma traducir_celda_NA: "traducir_celda env NA = NA"
  by (simp add: traducir_celda_def replace_cell_def split: sum.splits)

lemma celda_salida:
  assumes "i < length ls"
    and "df = \<lparr>columns = columnas_salida ls, rows = map (fila_salida env ls) ls\<rparr>"
  shows "celda df i (ascii ''timestamp'') = campo env (ls ! i) 0"
    and "celda df i (ascii ''fecha_legible'') = fecha_legible env (partes_de (ls ! i))"
    and "celda df i (ascii ''cola'') = campo env (ls ! i) 2"
    and "celda df i (ascii ''evento'') = traducir_celda env (campo env (ls ! i) 4)"
    and "celda df i (ascii ''numero_telefono'') = campo env (ls ! i) 6"
proof -
  have ne: "ls \<noteq> []" using assms(1) by auto
  have m: "ls ! i \<in> set ls" using assms(1) by simp
  note a = campo_ausente[OF _ m, of _ env]
  show "celda df i (ascii ''timestamp'') = campo env (ls ! i) 0"
    using assms(1) ne by (simp add: assms(2) celda_def cell_at_def columnas_salida_def fila_salida_def)
  show "celda df i (ascii ''fecha_legible'') = fecha_legible env (partes_de (ls ! i))"
    using assms(1) ne
    by (simp add: assms(2) celda_def cell_at_def columnas_salida_def fila_salida_def ascii_def)
  show "celda df i (ascii ''cola'') = campo env (ls ! i) 2"
    using assms(1) ne a[of 2] a[of 4] a[of 6]
    by (simp add: assms(2) celda_def cell_at_def columnas_salida_def fila_salida_def ascii_def)
  show "celda df i (ascii ''evento'') = traducir_celda env (campo env (ls ! i) 4)"
    using assms(1) ne a[of 2] a[of 4] a[of 6]
    by (simp add: assms(2) celda_def cell_at_def columnas_salida_def fila_salida_def ascii_def
          traducir_celda_NA)
  show "celda df i (ascii ''numero_telefono'') = campo env (ls ! i) 6"
    using assms(1) ne a[of 2] a[of 4] a[of 6]
    by (simp add: assms(2) celda_def cell_at_def columnas_salida_def fila_salida_def ascii_def)
qed

lemma py_int_vacio: "py_int U [] = Inl ValueError"
  by (simp add: py_int_def strip_with_def)

lemma int_digits_malo:
  "c \<in> set s \<Longrightarrow> c \<noteq> 95 \<Longrightarrow> digit U c = None \<Longrightarrow> int_digits U prev acc s = Inl ValueError"
  by (induction s arbitrary: prev acc) (auto split: option.splits)

lemma strip_with_keeps: "c \<in> set s \<Longrightarrow> \<not> sp c \<Longrightarrow> c \<in> set (strip_with sp s)"
proof -
  assume c: "c \<in> set s" and n: "\<not> sp c"
  have k: "c \<in> set xs \<Longrightarrow> c \<in> set (dropWhile sp xs)" for xs
    using n by (induction xs) auto
  have "c \<in> set (dropWhile sp (rev (dropWhile sp s)))"
    using k[of "rev (dropWhile sp s)"] k[of s] c by simp
  then show ?thesis by (simp add: strip_with_def)
qed

lemma py_int_no_numerico: "no_numerico U s \<Longrightarrow> py_int U s = Inl ValueError"
proof -
  assume "no_numerico U s"
  then obtain c where c: "c \<in> set s" and sp: "\<not> int_space c" and s1: "c \<noteq> 43" and s2: "c \<noteq> 45"
    and u: "c \<noteq> 95" and d: "digit U c = None"
    by (auto simp add: no_numerico_def list_ex_iff)
  have m: "c \<in> set (strip_with int_space s)" using c sp by (rule strip_with_keeps)
  show ?thesis
  proof (cases "strip_with int_space s")
    case Nil
    then show ?thesis by (simp add: py_int_def)
  next
    case (Cons x xs)
    have "c \<in> set (x # xs)" using m Cons by simp
    then have t: "int_digits U False 0 (x # xs) = Inl ValueError"
      by (rule int_digits_malo[OF _ u d])
    have r: "int_digits U False 0 xs = Inl ValueError" if "x = 43 \<or> x = 45"
    proof -
      have "c \<in> set xs" using m Cons s1 s2 that by auto
      then show ?thesis by (rule int_digits_malo[OF _ u d])
    qed
    show ?thesis using t r by (auto simp add: py_int_def Cons)
  qed
qed

lemma fecha_legible_eq:
  "fecha_legible env (partes_de l) =
     (case py_int (tablas env) (partes_de l ! 0) of
        Inl e \<Rightarrow> NA
      | Inr ts \<Rightarrow> (case fromtimestamp (utcoffset env) ts of Inl e \<Rightarrow> NA | Inr d \<Rightarrow> Fecha d))"
  using partes_de_not_Nil[of l] by (simp add: fecha_legible_def item_def)

lemma normalize_Nil: "normalize U form [] = []"
  by (simp add: normalize_def decompose_def canonical_order_def compose_def)

lemma readlines_Nil: "readlines [] = []"
  by (simp add: readlines_def)

lemma linea_en_blanco:
  assumes "strip l = []"
  shows "campo env l 0 = Str []" and "fecha_legible env (partes_de l) = NA"
proof -
  have p: "partes_de l = [[]]" using assms by (simp add: partes_de_def)
  show "campo env l 0 = Str []"
    by (simp add: campo_def p normalize_Nil strip_def strip_with_def)
  show "fecha_legible env (partes_de l) = NA"
    using fecha_legible_eq[of env l] by (simp add: p py_int_vacio)
qed

lemma nombre_final_finales: "map nombre_final (finales ls) = columnas_salida ls"
  by (cases "ls = []") (simp_all add: finales_def columnas_salida_def nombre_final_def presente_Nil)

lemma columnas_parseadas:
  "filter (\<lambda>c. c \<in> set (columns (DataFrame (map (fila env) ls))))
     [col 0, ascii ''fecha_legible'', col 2, col 4, col 6] = finales ls"
proof -
  from DataFrame_filas[of env ls] obtain cs where
    d: "DataFrame (map (fila env) ls) = marco (map (fila env) ls) cs"
    and k: "\<And>k. (col k \<in> set cs) = presente ls k"
    and f: "(ascii ''fecha_legible'' \<in> set cs) = (ls \<noteq> [])"
    by (elim exE conjE) blast
  show ?thesis unfolding d columns_marco by (rule columnas_finales_eq[OF k f])
qed

lemma readlines_dos: "readlines contenido_dos = [linea_login @ [10], linea_abc @ [10]]"
  by (simp add: contenido_dos_def linea_login_def linea_abc_def evaluar)

lemma partes_dos:
  "partes_de (linea_login @ [10]) = [ascii ''1700000000'', ascii ''x'', ascii ''queueA'',
     ascii ''y'', ascii ''EVT1'', ascii ''z'', ascii ''5551234'']"
  "partes_de (linea_abc @ [10]) = [ascii ''abc'', ascii ''x'', ascii ''queueB'',
     ascii ''y'', ascii ''EVT9'', ascii ''z'', ascii ''5559999'']"
  by (simp_all add: linea_login_def linea_abc_def evaluar)

lemma archivos_dos: "archivos entorno_dos ruta = Some contenido_dos"
  by (simp add: entorno_dos_def entorno_def)

lemma py_int_abc: "py_int ucd_basico (ascii ''abc'') = Inl ValueError"
  by (simp add: evaluar ucd_basico_def)

lemma presente_dos:
  "presente [linea_login @ [10], linea_abc @ [10]] 2"
  "presente [linea_login @ [10], linea_abc @ [10]] 4"
  "presente [linea_login @ [10], linea_abc @ [10]] 6"
  by (simp_all add: presente_def partes_dos)

lemma campos_dos:
  "campo entorno_dos (linea_login @ [10]) 0 = Str (ascii ''1700000000'')"
  "campo entorno_dos (linea_login @ [10]) 2 = Str (ascii ''queueA'')"
  "campo entorno_dos (linea_login @ [10]) 4 = Str (ascii ''EVT1'')"
  "campo entorno_dos (linea_login @ [10]) 6 = Str (ascii ''5551234'')"
  "campo entorno_dos (linea_abc @ [10]) 0 = Str (ascii ''abc'')"
  "campo entorno_dos (linea_abc @ [10]) 2 = Str (ascii ''queueB'')"
  "campo entorno_dos (linea_abc @ [10]) 4 = Str (ascii ''EVT9'')"
  "campo entorno_dos (linea_abc @ [10]) 6 = Str (ascii ''5559999'')"
  by (simp_all add: campo_def partes_dos entorno_dos_def entorno_def normalize_basico strip_def
        strip_with_def isspace_def ascii_def)

lemma fechas_dos:
  "fecha_legible entorno_dos (partes_de (linea_login @ [10])) =
     Fecha \<lparr>year = 2023, month = 11, day = 14, hour = 22, minute = 13, second = 20\<rparr>"
  "fecha_legible entorno_dos (partes_de (linea_abc @ [10])) = NA"
  by (simp_all add: fecha_legible_def partes_dos item_def entorno_dos_def entorno_def py_int_login
        py_int_abc fromtimestamp_1700000000)

lemma traducir_dos:
  "traducir_celda entorno_dos (Str (ascii ''EVT1'')) = Str (ascii ''Login'')"
  "traducir_celda entorno_dos (Str (ascii ''EVT9'')) = Str (ascii ''EVT9'')"
  by (simp_all add: traducir_celda_def entorno_dos_def entorno_def tabla_login_def
        replace_cell_def ascii_def)

lemma escenario_dos:
  "generar_dataframe entorno_dos ruta =
     Inr \<lparr>columns = [ascii ''timestamp'', ascii ''fecha_legible'', ascii ''cola'',
                      ascii ''evento'', ascii ''numero_telefono''],
          rows = [[Str (ascii ''1700000000''),
                   Fecha \<lparr>year = 2023, month = 11, day = 14, hour = 22, minute = 13, second = 20\<rparr>,
                   Str (ascii ''queueA''), Str (ascii ''Login''), Str (ascii ''5551234'')],
                  [Str (ascii ''abc''), NA, Str (ascii ''queueB''), Str (ascii ''EVT9''),
                   Str (ascii ''5559999'')]]\<rparr>"
  unfolding generar_dataframe_eq[OF archivos_dos aviso_posible_dos] readlines_dos
  by (simp add: columnas_salida_def fila_salida_def presente_dos campos_dos fechas_dos traducir_dos)

lemma py_int_grande:
  "py_int ucd_basico (ascii ''1000000000000000000'') = Inr 1000000000000000000"
  by (simp add: evaluar)

lemma partes_grande: "partes_de linea_grande = [ascii ''1000000000000000000'', ascii ''x'']"
  by (simp add: linea_grande_def evaluar)

lemma archivo_en_blanco:
  "generar_dataframe (entorno [(ruta, [10])] tabla_login) ruta =
     Inr \<lparr>columns = [ascii ''timestamp'', ascii ''fecha_legible''], rows = [[Str [], NA]]\<rparr>"
proof -
  let ?E = "entorno [(ruta, [10])] tabla_login"
  have a: "archivos ?E ruta = Some [10]" by (simp add: entorno_def)
  have rl: "readlines [10] = [[10]]" by (simp add: evaluar)
  have s: "strip [10] = []" by (simp add: evaluar)
  have pd: "partes_de [10] = [[]]" by (simp add: evaluar)
  have p: "\<not> presente [[10]] 2" "\<not> presente [[10]] 4" "\<not> presente [[10]] 6"
    by (simp_all add: presente_def pd)
  show ?thesis
    unfolding generar_dataframe_eq[OF a aviso_posible_login] rl
    by (simp add: columnas_salida_def fila_salida_def p linea_en_blanco[OF s])
qed

lemma campo_eventos [simp]: "campo (env\<lparr>eventos_json := x\<rparr>) l k = campo env l k"
  by (simp add: campo_def)

lemma fecha_legible_eventos [simp]:
  "fecha_legible (env\<lparr>eventos_json := x\<rparr>) ps = fecha_legible env ps"
  by (simp add: fecha_legible_def split: sum.splits)

section \<open>What the returned frame holds\<close>

lemma generar_dataframe_devuelto:
  assumes "archivos env p = Some contenido" and "generar_dataframe env p = Inr df"
  shows "df = \<lparr>columns = columnas_salida (readlines contenido),
               rows = map (fila_salida env (readlines contenido)) (readlines contenido)\<rparr>"
    and "aviso_posible env"
proof -
  show a: "aviso_posible env" using generar_dataframe_Inr[OF assms(1)] assms(2) by blast
  show "df = \<lparr>columns = columnas_salida (readlines contenido),
               rows = map (fila_salida env (readlines contenido)) (readlines contenido)\<rparr>"
    using generar_dataframe_eq[OF assms(1) a] assms(2) by simp
qed

text \<open>
  The cell \<open>fecha_legible\<close> is empty for every line whose first field \<open>int\<close> rejects;
  that is the case when the field is empty and when it holds a character that is neither a
  digit, a sign, an underscore nor whitespace.
\<close>

lemma fecha_legible_vacia:
  assumes "archivos env p = Some contenido" and "aviso_posible env"
  shows "\<exists>df. generar_dataframe env p = Inr df
     \<and> (\<forall>i<length (readlines contenido).
           (\<exists>e. py_int (tablas env) (partes_de (readlines contenido ! i) ! 0) = Inl e)
           \<longrightarrow> celda df i (ascii ''fecha_legible'') = NA)
     \<and> (\<forall>i<length (readlines contenido).
           partes_de (readlines contenido ! i) ! 0 = []
             \<or> no_numerico (tablas env) (partes_de (readlines contenido ! i) ! 0)
           \<longrightarrow> celda df i (ascii ''fecha_legible'') = NA)"
proof -
  let ?ls = "readlines contenido"
  let ?df = "\<lparr>columns = columnas_salida ?ls, rows = map (fila_salida env ?ls) ?ls\<rparr>"
  have c: "celda ?df i (ascii ''fecha_legible'') = fecha_legible env (partes_de (?ls ! i))"
    if "i < length ?ls" for i
    by (rule celda_salida(2)[OF that refl])
  have a: "celda ?df i (ascii ''fecha_legible'') = NA"
    if "i < length ?ls" "py_int (tablas env) (partes_de (?ls ! i) ! 0) = Inl e" for i e
    using that by (simp add: c fecha_legible_eq)
  have b: "celda ?df i (ascii ''fecha_legible'') = NA"
    if "i < length ?ls"
      "partes_de (?ls ! i) ! 0 = [] \<or> no_numerico (tablas env) (partes_de (?ls ! i) ! 0)" for i
  proof -
    have "py_int (tablas env) (partes_de (?ls ! i) ! 0) = Inl ValueError"
      using that(2) py_int_vacio py_int_no_numerico by metis
    then show ?thesis using a that(1) by blast
  qed
  show ?thesis using generar_dataframe_eq[OF assms] a b by auto
qed

text \<open>
  In every row the cell \<open>evento\<close> is the entry of the table when the code of the line is
  a key of the table, and the code itself otherwise; when the table does not load, it is
  the code of the line in every row. The cells of the other columns do not depend on the
  outcome of the loading.
\<close>

lemma traduccion_de_eventos:
  assumes "archivos env p = Some contenido" and "aviso_posible env"
  shows "\<exists>df. generar_dataframe env p = Inr df
     \<and> (\<forall>i<length (readlines contenido).
           celda df i (ascii ''evento'') =
             (case eventos_json env of
                Inl e \<Rightarrow> campo env (readlines contenido ! i) 4
              | Inr t \<Rightarrow>
                  (case campo env (readlines contenido ! i) 4 of
                     Str s \<Rightarrow> (case t s of None \<Rightarrow> Str s | Some v \<Rightarrow> Str v)
                   | v \<Rightarrow> v)))
     \<and> (\<forall>x. aviso_posible (env\<lparr>eventos_json := x\<rparr>) \<longrightarrow>
           (\<exists>df'. generar_dataframe (env\<lparr>eventos_json := x\<rparr>) p = Inr df'
           \<and> columns df' = columns df \<and> length (rows df') = length (rows df)
           \<and> (\<forall>i<length (readlines contenido).
                 celda df' i (ascii ''timestamp'') = celda df i (ascii ''timestamp'')
               \<and> celda df' i (ascii ''fecha_legible'') = celda df i (ascii ''fecha_legible'')
               \<and> celda df' i (ascii ''cola'') = celda df i (ascii ''cola'')
               \<and> celda df' i (ascii ''numero_telefono'') = celda df i (ascii ''numero_telefono''))))"
proof -
  let ?ls = "readlines contenido"
  let ?df = "\<lparr>columns = columnas_salida ?ls, rows = map (fila_salida env ?ls) ?ls\<rparr>"
  have g: "generar_dataframe env p = Inr ?df" by (rule generar_dataframe_eq[OF assms])
  have ev: "celda ?df i (ascii ''evento'') =
             (case eventos_json env of
                Inl e \<Rightarrow> campo env (?ls ! i) 4
              | Inr t \<Rightarrow>
                  (case campo env (?ls ! i) 4 of
                     Str s \<Rightarrow> (case t s of None \<Rightarrow> Str s | Some v \<Rightarrow> Str v)
                   | v \<Rightarrow> v))" if "i < length ?ls" for i
    unfolding celda_salida(4)[OF that refl]
    by (simp add: traducir_celda_def replace_cell_def split: sum.splits cell.splits option.splits)
  have otro: "\<exists>df'. generar_dataframe (env\<lparr>eventos_json := x\<rparr>) p = Inr df'
           \<and> columns df' = columns ?df \<and> length (rows df') = length (rows ?df)
           \<and> (\<forall>i<length ?ls.
                 celda df' i (ascii ''timestamp'') = celda ?df i (ascii ''timestamp'')
               \<and> celda df' i (ascii ''fecha_legible'') = celda ?df i (ascii ''fecha_legible'')
               \<and> celda df' i (ascii ''cola'') = celda ?df i (ascii ''cola'')
               \<and> celda df' i (ascii ''numero_telefono'') = celda ?df i (ascii ''numero_telefono''))"
    if x: "aviso_posible (env\<lparr>eventos_json := x\<rparr>)" for x
  proof -
    let ?env' = "env\<lparr>eventos_json := x\<rparr>"
    let ?df' = "\<lparr>columns = columnas_salida ?ls, rows = map (fila_salida ?env' ?ls) ?ls\<rparr>"
    have a': "archivos ?env' p = Some contenido" using assms by simp
    have g': "generar_dataframe ?env' p = Inr ?df'" by (rule generar_dataframe_eq[OF a' x])
    have c: "celda ?df' i (ascii ''timestamp'') = celda ?df i (ascii ''timestamp'')
               \<and> celda ?df' i (ascii ''fecha_legible'') = celda ?df i (ascii ''fecha_legible'')
               \<and> celda ?df' i (ascii ''cola'') = celda ?df i (ascii ''cola'')
               \<and> celda ?df' i (ascii ''numero_telefono'') = celda ?df i (ascii ''numero_telefono'')"
      if "i < length ?ls" for i
      by (simp add: celda_salida(1,2,3,5)[OF that refl])
    show ?thesis
      by (rule exI[of _ ?df']) (simp add: g' c)
  qed
  show ?thesis
    by (rule exI[of _ ?df]) (intro conjI allI impI g ev otro, assumption+)
qed

text \<open>
  The file of the two lines on a machine without \<open>eventos.json\<close>: the frame with the codes
  of the lines when the warning can be printed, and the exception of \<open>print\<close> when the
  standard output is an ASCII one.
\<close>

lemma aviso_no_ascii: "stdout_ascii (aviso texto) = Some UnicodeEncodeError"
  by (simp add: stdout_ascii_def aviso_def)

lemma generar_dataframe_ascii:
  assumes "map_of fs p = Some contenido"
  shows "generar_dataframe (entorno_ascii fs (Inl (e, texto))) p = Inl UnicodeEncodeError"
proof -
  have a: "archivos (entorno_ascii fs (Inl (e, texto))) p = Some contenido"
    using assms by (simp add: entorno_ascii_def entorno_def)
  have j: "eventos_json (entorno_ascii fs (Inl (e, texto))) = Inl (e, texto)"
    by (simp add: entorno_ascii_def entorno_def)
  have s: "stdout (entorno_ascii fs (Inl (e, texto))) (aviso texto) = Some UnicodeEncodeError"
    by (simp add: entorno_ascii_def entorno_def aviso_no_ascii)
  show ?thesis by (rule generar_dataframe_aviso[OF a j s])
qed

lemma sin_eventos_dos:
  "generar_dataframe (entorno [(ruta, contenido_dos)] sin_eventos_json) ruta =
     Inr \<lparr>columns = [ascii ''timestamp'', ascii ''fecha_legible'', ascii ''cola'',
                      ascii ''evento'', ascii ''numero_telefono''],
          rows = [[Str (ascii ''1700000000''),
                   Fecha \<lparr>year = 2023, month = 11, day = 14, hour = 22, minute = 13, second = 20\<rparr>,
                   Str (ascii ''queueA''), Str (ascii ''EVT1''), Str (ascii ''5551234'')],
                  [Str (ascii ''abc''), NA, Str (ascii ''queueB''), Str (ascii ''EVT9''),
                   Str (ascii ''5559999'')]]\<rparr>"
proof -
  let ?F = "entorno [(ruta, contenido_dos)] sin_eventos_json"
  have a: "archivos ?F ruta = Some contenido_dos" by (simp add: entorno_def)
  have ap: "aviso_posible ?F" by (simp add: sin_eventos_json_def)
  have F: "?F = entorno_dos\<lparr>eventos_json := sin_eventos_json\<rparr>"
    by (simp add: entorno_dos_def entorno_def)
  have c: "campo ?F l k = campo entorno_dos l k" for l k
    unfolding F by simp
  have f: "fecha_legible ?F ps = fecha_legible entorno_dos ps" for ps
    unfolding F by simp
  have t: "traducir_celda ?F v = v" for v
    by (simp add: traducir_celda_def entorno_def sin_eventos_json_def)
  show ?thesis
    unfolding generar_dataframe_eq[OF a ap] readlines_dos
    by (simp add: columnas_salida_def fila_salida_def presente_dos c f t campos_dos fechas_dos)
qed

lemma readlines_limites:
  "readlines contenido_limites = [linea_primer_dia @ [10], linea_segundo_dia @ [10]]"
  by (simp add: contenido_limites_def linea_primer_dia_def linea_segundo_dia_def evaluar)

lemma partes_limites:
  "partes_de (linea_primer_dia @ [10]) = [ascii ''-62135596800'', ascii ''x'']"
  "partes_de (linea_segundo_dia @ [10]) = [ascii ''-62135510400'', ascii ''x'']"
  by (simp_all add: linea_primer_dia_def linea_segundo_dia_def evaluar)

lemma py_int_limites:
  "py_int ucd_basico (ascii ''-62135596800'') = Inr (- 62135596800)"
  "py_int ucd_basico (ascii ''-62135510400'') = Inr (- 62135510400)"
  by (simp_all add: evaluar)

lemma partes_abc:
  "partes_de linea_abc = [ascii ''abc'', ascii ''x'', ascii ''queueB'',
     ascii ''y'', ascii ''EVT9'', ascii ''z'', ascii ''5559999'']"
  by (simp add: linea_abc_def evaluar)

lemma sin_eventos_abc:
  "generar_dataframe (entorno [(ruta, linea_abc)] sin_eventos_json) ruta =
     Inr \<lparr>columns = [ascii ''timestamp'', ascii ''fecha_legible'', ascii ''cola'',
                      ascii ''evento'', ascii ''numero_telefono''],
          rows = [[Str (ascii ''abc''), NA, Str (ascii ''queueB''), Str (ascii ''EVT9''),
                   Str (ascii ''5559999'')]]\<rparr>"
proof -
  let ?F = "entorno [(ruta, linea_abc)] sin_eventos_json"
  have a: "archivos ?F ruta = Some linea_abc" by (simp add: entorno_def)
  have ap: "aviso_posible ?F" by (simp add: sin_eventos_json_def)
  have rl: "readlines linea_abc = [linea_abc]" by (simp add: linea_abc_def evaluar)
  have p: "presente [linea_abc] 2" "presente [linea_abc] 4" "presente [linea_abc] 6"
    by (simp_all add: presente_def partes_abc)
  have c: "campo ?F linea_abc 0 = Str (ascii ''abc'')"
    "campo ?F linea_abc 2 = Str (ascii ''queueB'')"
    "campo ?F linea_abc 4 = Str (ascii ''EVT9'')"
    "campo ?F linea_abc 6 = Str (ascii ''5559999'')"
    by (simp_all add: campo_def partes_abc entorno_def normalize_basico strip_def strip_with_def
          isspace_def ascii_def)
  have f: "fecha_legible ?F (partes_de linea_abc) = NA"
    by (simp add: fecha_legible_def partes_abc item_def entorno_def py_int_abc)
  have t: "traducir_celda ?F v = v" for v
    by (simp add: traducir_celda_def entorno_def sin_eventos_json_def)
  show ?thesis
    unfolding generar_dataframe_eq[OF a ap] rl
    by (simp add: columnas_salida_def fila_salida_def p c f t)
qed

lemma ascii_con_tabla:
  "generar_dataframe (entorno_ascii [(ruta, contenido_dos)] tabla_login) ruta =
     generar_dataframe entorno_dos ruta"
proof -
  let ?A = "entorno_ascii [(ruta, contenido_dos)] tabla_login"
  let ?ls = "readlines contenido_dos"
  have a: "archivos ?A ruta = Some contenido_dos" by (simp add: entorno_ascii_def entorno_def)
  have ap: "aviso_posible ?A"
    by (simp add: aviso_posible_def entorno_ascii_def entorno_def tabla_login_def)
  have A: "?A = entorno_dos\<lparr>stdout := stdout_ascii\<rparr>"
    by (simp add: entorno_ascii_def entorno_dos_def)
  have c: "campo ?A l k = campo entorno_dos l k" for l k
    unfolding A by (simp add: campo_def)
  have f: "fecha_legible ?A ps = fecha_legible entorno_dos ps" for ps
    unfolding A by (simp add: fecha_legible_def split: sum.splits)
  have t: "traducir_celda ?A v = traducir_celda entorno_dos v" for v
    unfolding A by (simp add: traducir_celda_def)
  have "fila_salida ?A ?ls l = fila_salida entorno_dos ?ls l" for l
    by (simp add: fila_salida_def c f t)
  then show ?thesis
    unfolding generar_dataframe_eq[OF a ap] generar_dataframe_eq[OF archivos_dos aviso_posible_dos]
    by simp
qed


section \<open>The claims about generar_dataframe\<close>

text \<open>
  Claim C1 (amended). For a line whose first field \<open>int\<close> reads as the integer \<open>ts\<close>, the
  cell \<open>fecha_legible\<close> of its row is the local date and time of \<open>ts\<close> seconds after the epoch
  when \<open>fromtimestamp\<close> converts it, and is empty when \<open>fromtimestamp\<close> raises. It converts
  \<open>ts\<close> when the local date of \<open>ts\<close> and that of the instant 24 hours earlier lie in the
  years 1 to 9999 (and, when the offset of the zone has decreased in these 24 hours, that
  of the instant earlier by the decrease). The frame is the one returned when the table of
  events loads or the warning about it can be printed: \<open>generar_dataframe_Inr\<close>. The
  scenario of the specification (1700000000 gives 2023-11-14 22:13:20 on a machine on UTC)
  is the witness, with the first two midnights of the year 1 on UTC: that of 0001-01-01
  gives an empty cell (the instant 24 hours earlier is in the year 0), that of 0001-01-02
  a date.
\<close>

theorem fecha_legible_convertida:
  assumes "archivos env p = Some contenido"
    and "aviso_posible env"
    and "i < length (readlines contenido)"
    and "py_int (tablas env) (partes_de (readlines contenido ! i) ! 0) = Inr ts"
  shows "\<exists>df. generar_dataframe env p = Inr df
     \<and> celda df i (ascii ''fecha_legible'') =
         (case fromtimestamp (utcoffset env) ts of Inl e \<Rightarrow> NA | Inr d \<Rightarrow> Fecha d)
     \<and> celda df i (ascii ''fecha_legible'') =
         (if convertible (utcoffset env) ts then Fecha (fecha_local (utcoffset env) ts) else NA)"
proof -
  let ?ls = "readlines contenido"
  let ?df = "\<lparr>columns = columnas_salida ?ls, rows = map (fila_salida env ?ls) ?ls\<rparr>"
  have "celda ?df i (ascii ''fecha_legible'') = fecha_legible env (partes_de (?ls ! i))"
    by (rule celda_salida(2)[OF assms(3) refl])
  also have "\<dots> = (case fromtimestamp (utcoffset env) ts of Inl e \<Rightarrow> NA | Inr d \<Rightarrow> Fecha d)"
    by (simp add: fecha_legible_eq assms(4))
  finally have c: "celda ?df i (ascii ''fecha_legible'') =
      (case fromtimestamp (utcoffset env) ts of Inl e \<Rightarrow> NA | Inr d \<Rightarrow> Fecha d)" .
  have d: "(case fromtimestamp (utcoffset env) ts of Inl e \<Rightarrow> NA | Inr d \<Rightarrow> Fecha d) =
      (if convertible (utcoffset env) ts then Fecha (fecha_local (utcoffset env) ts) else NA)"
    by (simp add: fromtimestamp_eq)
  show ?thesis
    using generar_dataframe_eq[OF assms(1,2)] c d by simp
qed

theorem fecha_legible_convertida_witness:
  "(\<exists>df. generar_dataframe entorno_dos ruta = Inr df
      \<and> celda df 0 (ascii ''fecha_legible'') =
          Fecha \<lparr>year = 2023, month = 11, day = 14, hour = 22, minute = 13, second = 20\<rparr>)
   \<and> (\<exists>df. generar_dataframe (entorno [(ruta, contenido_limites)] tabla_login) ruta = Inr df
      \<and> celda df 0 (ascii ''fecha_legible'') = NA
      \<and> celda df 1 (ascii ''fecha_legible'') =
          Fecha \<lparr>year = 1, month = 1, day = 2, hour = 0, minute = 0, second = 0\<rparr>)"
proof -
  let ?L = "entorno [(ruta, contenido_limites)] tabla_login"
  have i: "0 < length (readlines contenido_dos)" by (simp add: readlines_dos)
  have p: "py_int (tablas entorno_dos) (partes_de (readlines contenido_dos ! 0) ! 0) = Inr 1700000000"
    by (simp add: readlines_dos partes_dos entorno_dos_def entorno_def py_int_login)
  have u: "utcoffset entorno_dos = (\<lambda>t. 0)" by (simp add: entorno_dos_def entorno_def)
  from fecha_legible_convertida[OF archivos_dos aviso_posible_dos i p] obtain df2 where
    g2: "generar_dataframe entorno_dos ruta = Inr df2"
    and c2: "celda df2 0 (ascii ''fecha_legible'') =
         (case fromtimestamp (utcoffset entorno_dos) 1700000000 of
            Inl e \<Rightarrow> NA | Inr d \<Rightarrow> Fecha d)"
    by blast
  have "celda df2 0 (ascii ''fecha_legible'') =
          Fecha \<lparr>year = 2023, month = 11, day = 14, hour = 22, minute = 13, second = 20\<rparr>"
    using c2 unfolding u by (simp add: fromtimestamp_1700000000)
  then have uno: "\<exists>df. generar_dataframe entorno_dos ruta = Inr df
      \<and> celda df 0 (ascii ''fecha_legible'') =
          Fecha \<lparr>year = 2023, month = 11, day = 14, hour = 22, minute = 13, second = 20\<rparr>"
    using g2 by blast
  have a: "archivos ?L ruta = Some contenido_limites" by (simp add: entorno_def)
  have j: "0 < length (readlines contenido_limites)" "1 < length (readlines contenido_limites)"
    by (simp_all add: readlines_limites)
  have q: "py_int (tablas ?L) (partes_de (readlines contenido_limites ! 0) ! 0)
             = Inr (- 62135596800)"
    "py_int (tablas ?L) (partes_de (readlines contenido_limites ! 1) ! 0)
             = Inr (- 62135510400)"
    by (simp_all add: readlines_limites partes_limites entorno_def py_int_limites)
  have v: "utcoffset ?L = (\<lambda>t. 0)" by (simp add: entorno_def)
  from fecha_legible_convertida[OF a aviso_posible_login j(1) q(1)] obtain df where
    g: "generar_dataframe ?L ruta = Inr df"
    and c0: "celda df 0 (ascii ''fecha_legible'') =
         (case fromtimestamp (utcoffset ?L) (- 62135596800) of Inl e \<Rightarrow> NA | Inr d \<Rightarrow> Fecha d)"
    by blast
  from fecha_legible_convertida[OF a aviso_posible_login j(2) q(2)] obtain df' where
    g': "generar_dataframe ?L ruta = Inr df'"
    and c1: "celda df' 1 (ascii ''fecha_legible'') =
         (case fromtimestamp (utcoffset ?L) (- 62135510400) of Inl e \<Rightarrow> NA | Inr d \<Rightarrow> Fecha d)"
    by blast
  have e: "df' = df" using g g' by simp
  have "celda df 0 (ascii ''fecha_legible'') = NA"
    using c0 unfolding v by (simp add: fromtimestamp_limites)
  moreover have "celda df 1 (ascii ''fecha_legible'') =
          Fecha \<lparr>year = 1, month = 1, day = 2, hour = 0, minute = 0, second = 0\<rparr>"
    using c1 unfolding v e by (simp add: fromtimestamp_limites)
  ultimately show ?thesis using uno g by blast
qed

text \<open>
  As the claim is stated it fails: the first field of the line
  \<open>1000000000000000000|x\<close> parses as an integer, and the cell is empty, not a date.
\<close>

theorem fecha_legible_fuera_de_rango:
  "py_int ucd_basico (partes_de linea_grande ! 0) = Inr 1000000000000000000
   \<and> generar_dataframe (entorno [(ruta, linea_grande)] tabla_login) ruta =
       Inr \<lparr>columns = [ascii ''timestamp'', ascii ''fecha_legible''],
            rows = [[Str (ascii ''1000000000000000000''), NA]]\<rparr>"
proof -
  let ?E = "entorno [(ruta, linea_grande)] tabla_login"
  have a: "archivos ?E ruta = Some linea_grande" by (simp add: entorno_def)
  have rl: "readlines linea_grande = [linea_grande]" by (simp add: linea_grande_def evaluar)
  have p: "\<not> presente [linea_grande] 2" "\<not> presente [linea_grande] 4" "\<not> presente [linea_grande] 6"
    by (simp_all add: presente_def partes_grande)
  have c: "campo ?E linea_grande 0 = Str (ascii ''1000000000000000000'')"
    by (simp add: campo_def partes_grande entorno_def normalize_basico strip_def strip_with_def
          isspace_def ascii_def)
  have f: "fecha_legible ?E (partes_de linea_grande) = NA"
    by (simp add: fecha_legible_def partes_grande item_def entorno_def py_int_grande
          fromtimestamp_grande)
  have "generar_dataframe ?E ruta =
       Inr \<lparr>columns = [ascii ''timestamp'', ascii ''fecha_legible''],
            rows = [[Str (ascii ''1000000000000000000''), NA]]\<rparr>"
    unfolding generar_dataframe_eq[OF a aviso_posible_login] rl
    by (simp add: columnas_salida_def fila_salida_def p c f)
  then show ?thesis by (simp add: partes_grande py_int_grande)
qed

text \<open>
  Claim C2. The cell \<open>fecha_legible\<close> is empty for every line whose first field \<open>int\<close>
  rejects (\<open>fecha_legible_vacia\<close> above), and the bare \<open>except\<close> of lines 46 and 47 lets
  nothing out of the parse of the first field. But \<open>generar_dataframe\<close> is not total on
  the contents of the file: the handler of lines 79 and 80 prints a warning that starts
  with U+26A0, and nothing catches what \<open>print\<close> raises. For the file with the one line
  \<open>abc|x|queueB|y|EVT9|z|5559999\<close> on a machine without \<open>eventos.json\<close>, the frame comes
  back with the empty cell when the standard output encodes the warning, and
  UnicodeEncodeError escapes when the standard output is an ASCII one.
\<close>

theorem excepcion_tras_el_parseo:
  "generar_dataframe (entorno [(ruta, linea_abc)] sin_eventos_json) ruta =
     Inr \<lparr>columns = [ascii ''timestamp'', ascii ''fecha_legible'', ascii ''cola'',
                      ascii ''evento'', ascii ''numero_telefono''],
          rows = [[Str (ascii ''abc''), NA, Str (ascii ''queueB''), Str (ascii ''EVT9''),
                   Str (ascii ''5559999'')]]\<rparr>
   \<and> generar_dataframe (entorno_ascii [(ruta, linea_abc)] sin_eventos_json) ruta =
       Inl UnicodeEncodeError"
proof -
  have "map_of [(ruta, linea_abc)] ruta = Some linea_abc" by simp
  then have "generar_dataframe (entorno_ascii [(ruta, linea_abc)] sin_eventos_json) ruta =
       Inl UnicodeEncodeError"
    unfolding sin_eventos_json_def by (rule generar_dataframe_ascii)
  then show ?thesis using sin_eventos_abc by simp
qed

text \<open>
  Claim C3 (amended). \<open>generar_dataframe\<close> produces one row for every line of the file,
  the blank ones included: a line that is empty after trimming gives a row whose
  \<open>timestamp\<close> is the empty string and whose \<open>fecha_legible\<close> is empty. An empty file gives
  no rows and no columns. The frame is the one returned when the table of events loads or
  the warning about it can be printed: \<open>generar_dataframe_Inr\<close>.
\<close>

theorem una_fila_por_linea:
  assumes "archivos env p = Some contenido" and "aviso_posible env"
  shows "\<exists>df. generar_dataframe env p = Inr df
     \<and> length (rows df) = length (readlines contenido)
     \<and> (contenido = [] \<longrightarrow> rows df = [] \<and> columns df = [])
     \<and> (\<forall>i<length (readlines contenido). strip (readlines contenido ! i) = []
           \<longrightarrow> celda df i (ascii ''timestamp'') = Str []
               \<and> celda df i (ascii ''fecha_legible'') = NA)"
proof -
  let ?ls = "readlines contenido"
  let ?df = "\<lparr>columns = columnas_salida ?ls, rows = map (fila_salida env ?ls) ?ls\<rparr>"
  have e: "contenido = [] \<longrightarrow> rows ?df = [] \<and> columns ?df = []"
    by (simp add: readlines_Nil columnas_salida_def)
  have b: "celda ?df i (ascii ''timestamp'') = Str [] \<and> celda ?df i (ascii ''fecha_legible'') = NA"
    if "i < length ?ls" "strip (?ls ! i) = []" for i
    using celda_salida(1,2)[OF that(1) refl, of env] linea_en_blanco[OF that(2), of env] by simp
  have l: "length (rows ?df) = length ?ls" by simp
  show ?thesis using generar_dataframe_eq[OF assms] e b l by auto
qed

theorem una_fila_por_linea_witness:
  "\<exists>df. generar_dataframe (entorno [(ruta, [10])] tabla_login) ruta = Inr df
     \<and> length (rows df) = 1
     \<and> celda df 0 (ascii ''timestamp'') = Str []
     \<and> celda df 0 (ascii ''fecha_legible'') = NA"
proof -
  have a: "archivos (entorno [(ruta, [10])] tabla_login) ruta = Some [10]"
    by (simp add: entorno_def)
  have rl: "readlines [10] = [[10]]" by (simp add: evaluar)
  have s: "strip ([[10]] ! 0) = []" by (simp add: evaluar)
  from una_fila_por_linea[OF a aviso_posible_login] show ?thesis unfolding rl using s by auto
qed

text \<open>
  As the claim is stated it fails: the file that holds one line break has no line that is
  non-empty after trimming, and the frame has one row.
\<close>

theorem fila_para_linea_en_blanco:
  "generar_dataframe (entorno [(ruta, [10])] tabla_login) ruta =
     Inr \<lparr>columns = [ascii ''timestamp'', ascii ''fecha_legible''], rows = [[Str [], NA]]\<rparr>
   \<and> filter (\<lambda>l. strip l \<noteq> []) (readlines [10]) = []"
  by (simp add: archivo_en_blanco) (simp add: evaluar)

text \<open>
  Claim C4 (amended). For every line and every position \<open>k\<close> of a field, the value stored
  under the key \<open>col<k>\<close> is the field stripped of surrounding whitespace and normalized to the
  compatibility composition form (NFKC).
\<close>

theorem col_normalizada_NFKC:
  assumes "k < length (split_on 124 (strip linea))"
  shows "map_of (fila env linea) (col k) =
           Some (Str (normalize (tablas env) NFKC (strip (split_on 124 (strip linea) ! k))))"
  using assms by (simp add: fila_def Let_def update_conv' fold_cols_lookup)

theorem col_normalizada_NFKC_witness:
  "map_of (fila entorno_dos linea_login) (col 2) = Some (Str (ascii ''queueA''))"
proof -
  have p: "split_on 124 (strip linea_login) = [ascii ''1700000000'', ascii ''x'', ascii ''queueA'',
      ascii ''y'', ascii ''EVT1'', ascii ''z'', ascii ''5551234'']"
    using partes_login by (simp add: partes_de_def)
  have k: "2 < length (split_on 124 (strip linea_login))" by (simp add: p)
  have n: "normalize (tablas entorno_dos) NFKC (strip (ascii ''queueA'')) = ascii ''queueA''"
    by (simp add: entorno_dos_def entorno_def normalize_basico strip_def strip_with_def
          isspace_def ascii_def)
  show ?thesis using col_normalizada_NFKC[OF k, of entorno_dos] by (simp add: p n)
qed

text \<open>
  As the claim is stated (canonical composition, NFC) it fails: the field
  U+00B2 SUPERSCRIPT TWO is stored as the digit 2, and its canonical composition form is
  U+00B2 itself.
\<close>

theorem col_superindice_NFKC:
  "map_of (fila (entorno [] tabla_login) [178]) (col 0) = Some (Str [50])
   \<and> normalize ucd_basico NFC (strip [178]) = [178]"
proof -
  have s: "strip [178] = [178]" by (simp add: evaluar)
  have p: "split_on 124 [178] = [[178]]" by simp
  have "map_of (fila (entorno [] tabla_login) [178]) (col 0) = Some (Str [50])"
    by (simp add: fila_def Let_def update_conv' s p entorno_def normalize_superindice)
  then show ?thesis by (simp add: s normalize_superindice)
qed

text \<open>
  Claim C5. The columns of the result are those of \<open>col0\<close>, \<open>fecha_legible\<close>, \<open>col2\<close>,
  \<open>col4\<close>, \<open>col6\<close> that the parsed data have, in this order and renamed to \<open>timestamp\<close>,
  \<open>fecha_legible\<close>, \<open>cola\<close>, \<open>evento\<close>, \<open>numero_telefono\<close> (\<open>columnas_salida\<close> spells them
  out: the first two for a file with a line, the others when some line has a field at the
  position). The rows are those of the lines, in the order of the lines. The frame is the
  one returned when the table of events loads or the warning about it can be printed:
  \<open>generar_dataframe_Inr\<close>.
\<close>

theorem generar_dataframe_columnas:
  assumes "archivos env p = Some contenido" and "aviso_posible env"
  shows "\<exists>df. generar_dataframe env p = Inr df
     \<and> columns df =
         map nombre_final
           (filter (\<lambda>c. c \<in> set (columns (DataFrame (map (fila env) (readlines contenido)))))
              [col 0, ascii ''fecha_legible'', col 2, col 4, col 6])
     \<and> columns df = columnas_salida (readlines contenido)
     \<and> rows df = map (fila_salida env (readlines contenido)) (readlines contenido)"
  unfolding columnas_parseadas nombre_final_finales
  by (simp add: generar_dataframe_eq[OF assms])

theorem generar_dataframe_columnas_witness:
  "\<exists>df. generar_dataframe entorno_dos ruta = Inr df
     \<and> columns df = [ascii ''timestamp'', ascii ''fecha_legible'', ascii ''cola'',
                      ascii ''evento'', ascii ''numero_telefono'']
     \<and> length (rows df) = 2"
proof -
  from generar_dataframe_columnas[OF archivos_dos aviso_posible_dos] obtain df where
    g: "generar_dataframe entorno_dos ruta = Inr df"
    and c: "columns df = columnas_salida (readlines contenido_dos)"
    and r: "rows df = map (fila_salida entorno_dos (readlines contenido_dos)) (readlines contenido_dos)"
    by blast
  have "columns df = [ascii ''timestamp'', ascii ''fecha_legible'', ascii ''cola'',
                      ascii ''evento'', ascii ''numero_telefono'']"
    unfolding c readlines_dos by (simp add: columnas_salida_def presente_dos)
  moreover have "length (rows df) = 2" unfolding r readlines_dos by simp
  ultimately show ?thesis using g by blast
qed

text \<open>
  Claim C6. The cell \<open>evento\<close> of every row is the entry of the table when the code of
  the line is a key, and the code otherwise (\<open>traduccion_de_eventos\<close> above). When loading
  the table fails, the frame with the codes of the lines is returned only if the warning
  can be printed: the handler of lines 79 and 80 prints a text that starts with U+26A0, and
  what \<open>print\<close> raises is raised to the caller. For the file of the two lines on a machine
  without \<open>eventos.json\<close>, the frame keeps the codes when the standard output encodes the
  warning, and UnicodeEncodeError reaches the caller when the standard output is an ASCII
  one; with the table, the same standard output does no harm.
\<close>

theorem excepcion_sin_tabla:
  "generar_dataframe (entorno [(ruta, contenido_dos)] sin_eventos_json) ruta =
     Inr \<lparr>columns = [ascii ''timestamp'', ascii ''fecha_legible'', ascii ''cola'',
                      ascii ''evento'', ascii ''numero_telefono''],
          rows = [[Str (ascii ''1700000000''),
                   Fecha \<lparr>year = 2023, month = 11, day = 14, hour = 22, minute = 13, second = 20\<rparr>,
                   Str (ascii ''queueA''), Str (ascii ''EVT1''), Str (ascii ''5551234'')],
                  [Str (ascii ''abc''), NA, Str (ascii ''queueB''), Str (ascii ''EVT9''),
                   Str (ascii ''5559999'')]]\<rparr>
   \<and> generar_dataframe (entorno_ascii [(ruta, contenido_dos)] sin_eventos_json) ruta =
       Inl UnicodeEncodeError
   \<and> generar_dataframe (entorno_ascii [(ruta, contenido_dos)] tabla_login) ruta = Inr df_dos"
proof -
  have "map_of [(ruta, contenido_dos)] ruta = Some contenido_dos" by simp
  then have "generar_dataframe (entorno_ascii [(ruta, contenido_dos)] sin_eventos_json) ruta =
       Inl UnicodeEncodeError"
    unfolding sin_eventos_json_def by (rule generar_dataframe_ascii)
  moreover have "generar_dataframe (entorno_ascii [(ruta, contenido_dos)] tabla_login) ruta
       = Inr df_dos"
    unfolding ascii_con_tabla by (simp add: escenario_dos df_dos_def)
  ultimately show ?thesis using sin_eventos_dos by simp
qed


section \<open>UTF-8, CSV and the exported bytes\<close>

lemma partir_alg: "(h::nat) * 4096 + l * 64 = (h * 64 + l) * 64"
  by simp

lemma partir_base: "(q::nat) div 64 * 4096 + q mod 64 * 64 = q * 64"
  by (simp only: partir_alg div_mult_mod_eq)

lemma partir3: "(c::nat) div 4096 * 4096 + (c div 64) mod 64 * 64 + c mod 64 = c"
proof -
  have a: "c div 4096 = c div 64 div 64" by (simp add: div_mult2_eq[symmetric])
  have "c div 64 div 64 * 4096 + (c div 64) mod 64 * 64 + c mod 64 = c div 64 * 64 + c mod 64"
    by (simp only: partir_base)
  also have "\<dots> = c" by (rule div_mult_mod_eq)
  finally show ?thesis by (simp only: a)
qed

lemma partir_alg4: "(h::nat) * 262144 + l * 4096 = (h * 64 + l) * 4096"
  by simp

lemma partir4:
  "(c::nat) div 262144 * 262144 + (c div 4096) mod 64 * 4096 + (c div 64) mod 64 * 64 + c mod 64 = c"
proof -
  have a: "c div 262144 = c div 4096 div 64" by (simp add: div_mult2_eq[symmetric])
  have "c div 4096 div 64 * 262144 + (c div 4096) mod 64 * 4096 = c div 4096 * 4096"
    by (simp only: partir_alg4 div_mult_mod_eq)
  then have "c div 262144 * 262144 + (c div 4096) mod 64 * 4096 + (c div 64) mod 64 * 64 + c mod 64
      = c div 4096 * 4096 + (c div 64) mod 64 * 64 + c mod 64"
    by (simp only: a)
  then show ?thesis by (simp only: partir3)
qed

lemma utf8_decode_2:
  "192 \<le> b \<Longrightarrow> b < 224 \<Longrightarrow>
     utf8_decode (b # b1 # r) = ((b - 192) * 64 + (b1 - 128)) # utf8_decode r"
  by simp

lemma utf8_decode_3:
  "224 \<le> b \<Longrightarrow> b < 240 \<Longrightarrow>
     utf8_decode (b # b1 # b2 # r) =
       ((b - 224) * 4096 + (b1 - 128) * 64 + (b2 - 128)) # utf8_decode r"
  by simp

lemma utf8_decode_4:
  "240 \<le> b \<Longrightarrow>
     utf8_decode (b # b1 # b2 # b3 # r) =
       ((b - 240) * 262144 + (b1 - 128) * 4096 + (b2 - 128) * 64 + (b3 - 128)) # utf8_decode r"
  by simp

lemma utf8_char_decode:
  assumes "escalar c"
  shows "\<exists>b. utf8_char c = Inr b \<and> (\<forall>r. utf8_decode (b @ r) = c # utf8_decode r)"
proof -
  consider "c < 128" | "128 \<le> c" "c < 2048" | "2048 \<le> c" "c < 65536" | "65536 \<le> c" "c < 1114112"
    using assms unfolding escalar_def by linarith
  then show ?thesis
  proof cases
    case 1
    then show ?thesis by (simp add: utf8_char_def)
  next
    case 2
    have u: "utf8_char c = Inr [192 + c div 64, 128 + c mod 64]"
      using 2 by (simp add: utf8_char_def)
    have b: "192 \<le> 192 + c div 64" "192 + c div 64 < 224" using 2 by auto
    have v: "(192 + c div 64 - 192) * 64 + (128 + c mod 64 - 128) = c"
      by (simp only: add_diff_cancel_left' div_mult_mod_eq)
    have "utf8_decode ([192 + c div 64, 128 + c mod 64] @ r) = c # utf8_decode r" for r
      using utf8_decode_2[OF b, of "128 + c mod 64" r] unfolding v by simp
    then show ?thesis using u by blast
  next
    case 3
    have s: "\<not> (55296 \<le> c \<and> c < 57344)" using assms 3 by (auto simp add: escalar_def)
    have u: "utf8_char c = Inr [224 + c div 4096, 128 + (c div 64) mod 64, 128 + c mod 64]"
      using 3 s by (simp add: utf8_char_def)
    have b: "224 \<le> 224 + c div 4096" "224 + c div 4096 < 240" using 3 by auto
    have v: "(224 + c div 4096 - 224) * 4096 + (128 + (c div 64) mod 64 - 128) * 64
        + (128 + c mod 64 - 128) = c"
      by (simp only: add_diff_cancel_left' partir3)
    have "utf8_decode ([224 + c div 4096, 128 + (c div 64) mod 64, 128 + c mod 64] @ r)
        = c # utf8_decode r" for r
      using utf8_decode_3[OF b, of "128 + (c div 64) mod 64" "128 + c mod 64" r] unfolding v
      by simp
    then show ?thesis using u by blast
  next
    case 4
    have u: "utf8_char c = Inr [240 + c div 262144, 128 + (c div 4096) mod 64,
        128 + (c div 64) mod 64, 128 + c mod 64]"
      using 4 by (simp add: utf8_char_def)
    have b: "240 \<le> 240 + c div 262144" by simp
    have v: "(240 + c div 262144 - 240) * 262144 + (128 + (c div 4096) mod 64 - 128) * 4096
        + (128 + (c div 64) mod 64 - 128) * 64 + (128 + c mod 64 - 128) = c"
      by (simp only: add_diff_cancel_left' partir4)
    have "utf8_decode ([240 + c div 262144, 128 + (c div 4096) mod 64,
        128 + (c div 64) mod 64, 128 + c mod 64] @ r) = c # utf8_decode r" for r
      using utf8_decode_4[OF b, of "128 + (c div 4096) mod 64" "128 + (c div 64) mod 64"
          "128 + c mod 64" r] unfolding v
      by simp
    then show ?thesis using u by blast
  qed
qed

lemma encode_utf8_decode:
  "list_all escalar s \<Longrightarrow> \<exists>b. encode_utf8 s = Inr b \<and> utf8_decode b = s"
proof (induction s)
  case Nil
  then show ?case by simp
next
  case (Cons c s)
  then obtain bs where bs: "encode_utf8 s = Inr bs" "utf8_decode bs = s" by auto
  from Cons.prems have "escalar c" by simp
  from utf8_char_decode[OF this] obtain b where
    b: "utf8_char c = Inr b" "\<And>r. utf8_decode (b @ r) = c # utf8_decode r" by blast
  show ?case using b bs by simp
qed

lemma csv_plain:
  "\<not> list_ex csv_special f \<Longrightarrow>
     foldl csv_step (rs, fs, cur, Libre, fr) f = (rs, fs, cur @ f, Libre, fr \<and> f = [])"
  by (induction f arbitrary: cur fr) (auto simp add: csv_special_def)

lemma csv_quoted_body:
  "foldl csv_step (rs, fs, cur, Citado, False)
       (concat (map (\<lambda>c. if c = 34 then [34, 34] else [c]) f))
     = (rs, fs, cur @ f, Citado, False)"
  by (induction f arbitrary: cur) auto

lemma csv_field_read:
  "foldl csv_step (rs, fs, [], Libre, fr) (csv_field f)
     = (rs, fs, f, if list_ex csv_special f then Cierre else Libre, fr \<and> f = [])"
proof (cases "list_ex csv_special f")
  case False
  then show ?thesis using csv_plain[OF False, of rs fs "[]" fr] by (simp add: csv_field_def)
next
  case True
  then have ne: "f \<noteq> []" by auto
  have "foldl csv_step (rs, fs, [], Libre, fr) (csv_field f)
      = csv_step (foldl csv_step (rs, fs, [], Citado, False)
            (concat (map (\<lambda>c. if c = 34 then [34, 34] else [c]) f))) 34"
    using True by (simp add: csv_field_def)
  also have "\<dots> = (rs, fs, f, Cierre, False)"
    by (simp add: csv_quoted_body)
  finally show ?thesis using True ne by simp
qed

lemma csv_fields_read:
  "r \<noteq> [] \<Longrightarrow>
     \<exists>m. m \<noteq> Citado \<and>
         foldl csv_step (rs, fs, [], Libre, fr) (join [44] (map csv_field r))
           = (rs, fs @ butlast r, last r, m, fr \<and> r = [[]])"
proof (induction r arbitrary: fs fr)
  case Nil
  then show ?case by simp
next
  case (Cons x r)
  show ?case
  proof (cases r)
    case Nil
    then show ?thesis by (simp add: csv_field_read)
  next
    case (Cons y ys)
    from Cons.IH[of "fs @ [x]" False] Cons obtain m where
      m: "m \<noteq> Citado"
         "foldl csv_step (rs, fs @ [x], [], Libre, False) (join [44] (map csv_field r))
           = (rs, (fs @ [x]) @ butlast r, last r, m, False)"
      by auto
    have "foldl csv_step (rs, fs, [], Libre, fr) (join [44] (map csv_field (x # r)))
        = foldl csv_step (csv_step (foldl csv_step (rs, fs, [], Libre, fr) (csv_field x)) 44)
            (join [44] (map csv_field r))"
      using Cons by simp
    also have "\<dots> = foldl csv_step (rs, fs @ [x], [], Libre, False) (join [44] (map csv_field r))"
      by (simp add: csv_field_read)
    also have "\<dots> = (rs, (fs @ [x]) @ butlast r, last r, m, False)" by (rule m(2))
    finally show ?thesis using m(1) Cons by auto
  qed
qed

lemma csv_row_read:
  "foldl csv_step (rs, [], [], Libre, True) (csv_row r) = (rs @ [r], [], [], Libre, True)"
proof (cases "r = []")
  case True
  then show ?thesis by (simp add: csv_row_def)
next
  case False
  show ?thesis
  proof (cases "r = [[]]")
    case True
    then show ?thesis by (simp add: csv_row_def)
  next
    case False
    from csv_fields_read[OF \<open>r \<noteq> []\<close>, of rs "[]" True] obtain m where
      m: "m \<noteq> Citado"
         "foldl csv_step (rs, [], [], Libre, True) (join [44] (map csv_field r))
           = (rs, butlast r, last r, m, False)"
      using False by auto
    show ?thesis using False \<open>r \<noteq> []\<close> m by (simp add: csv_row_def)
  qed
qed

lemma csv_write_read_aux:
  "foldl csv_step (rs, [], [], Libre, True) (csv_write t) = (rs @ t, [], [], Libre, True)"
  by (induction t arbitrary: rs) (simp_all add: csv_write_def csv_row_read)

lemma csv_read_write: "csv_read (csv_write t) = t"
  by (simp add: csv_read_def csv_write_read_aux)

lemma escalar_signos: "escalar 44" "escalar 10" "escalar 34"
  by (simp_all add: escalar_def)

lemma escalar_csv_field: "list_all escalar f \<Longrightarrow> list_all escalar (csv_field f)"
  by (auto simp add: csv_field_def list_all_iff escalar_signos split: if_splits)

lemma escalar_join:
  "list_all (list_all escalar) r \<Longrightarrow> list_all escalar (join [44] (map csv_field r))"
proof (induction r rule: induct_list012)
  case 1
  then show ?case by simp
next
  case (2 x)
  then show ?case by (simp add: escalar_csv_field)
next
  case (3 x y zs)
  then show ?case by (simp add: escalar_csv_field escalar_signos)
qed

lemma escalar_csv_row: "list_all (list_all escalar) r \<Longrightarrow> list_all escalar (csv_row r)"
  by (simp add: csv_row_def escalar_join escalar_signos)

lemma escalar_csv_write:
  "list_all (list_all (list_all escalar)) t \<Longrightarrow> list_all escalar (csv_write t)"
  by (induction t) (simp_all add: csv_write_def escalar_csv_row)

lemma quitar_bom_BOM: "quitar_bom (BOM @ b) = b"
  by (simp add: quitar_bom_def BOM_def)

lemma to_csv_bytes:
  assumes "texto_valido env df"
  shows "\<exists>b. encode_utf8 (to_csv env df) = Inr b \<and> utf8_decode b = to_csv env df"
proof -
  have "list_all escalar (to_csv env df)"
    using assms unfolding texto_valido_def to_csv_def by (rule escalar_csv_write)
  then show ?thesis by (rule encode_utf8_decode)
qed



lemma texto_valido_ejemplo: "texto_valido entorno_dos marco_ejemplo"
  by (simp add: texto_valido_def table_text_def marco_ejemplo_def cell_text_def escalar_def
        ascii_def)

lemma lineas_ausente:
  "readlines contenido_ausente = [ascii ''a|b'' @ [10], ascii ''a|b|c'']"
  "partes_de (ascii ''a|b'' @ [10]) = [ascii ''a'', ascii ''b'']"
  "partes_de (ascii ''a|b|c'') = [ascii ''a'', ascii ''b'', ascii ''c'']"
  by (simp_all add: contenido_ausente_def evaluar)

lemma lineas_vacio:
  "readlines contenido_vacio = [ascii ''a|b|'' @ [10], ascii ''a|b|c'']"
  "partes_de (ascii ''a|b|'' @ [10]) = [ascii ''a'', ascii ''b'', []]"
  by (simp_all add: contenido_vacio_def evaluar)

lemma py_int_a: "py_int ucd_basico (ascii ''a'') = Inl ValueError"
  by (simp add: evaluar ucd_basico_def)

lemma generar_ausente:
  "generar_dataframe (entorno [(ruta, contenido_ausente)] tabla_login) ruta = Inr df_ausente"
proof -
  let ?E = "entorno [(ruta, contenido_ausente)] tabla_login"
  have a: "archivos ?E ruta = Some contenido_ausente" by (simp add: entorno_def)
  have p: "presente [ascii ''a|b'' @ [10], ascii ''a|b|c''] 2"
    "\<not> presente [ascii ''a|b'' @ [10], ascii ''a|b|c''] 4"
    "\<not> presente [ascii ''a|b'' @ [10], ascii ''a|b|c''] 6"
    by (simp_all add: presente_def lineas_ausente)
  have c: "campo ?E (ascii ''a|b'' @ [10]) 0 = Str (ascii ''a'')"
    "campo ?E (ascii ''a|b'' @ [10]) 2 = NA"
    "campo ?E (ascii ''a|b|c'') 0 = Str (ascii ''a'')"
    "campo ?E (ascii ''a|b|c'') 2 = Str (ascii ''c'')"
    by (simp_all add: campo_def lineas_ausente entorno_def)
       (simp_all add: normalize_basico strip_def strip_with_def isspace_def ascii_def)
  have f: "fecha_legible ?E (partes_de (ascii ''a|b'' @ [10])) = NA"
    "fecha_legible ?E (partes_de (ascii ''a|b|c'')) = NA"
    by (simp_all add: fecha_legible_def lineas_ausente item_def entorno_def py_int_a)
  show ?thesis
    unfolding generar_dataframe_eq[OF a aviso_posible_login] lineas_ausente
    by (simp add: columnas_salida_def fila_salida_def p c f df_ausente_def)
qed

lemma generar_vacia:
  "generar_dataframe (entorno [(ruta, contenido_vacio)] tabla_login) ruta = Inr df_vacia"
proof -
  let ?E = "entorno [(ruta, contenido_vacio)] tabla_login"
  have a: "archivos ?E ruta = Some contenido_vacio" by (simp add: entorno_def)
  have p: "presente [ascii ''a|b|'' @ [10], ascii ''a|b|c''] 2"
    "\<not> presente [ascii ''a|b|'' @ [10], ascii ''a|b|c''] 4"
    "\<not> presente [ascii ''a|b|'' @ [10], ascii ''a|b|c''] 6"
    by (simp_all add: presente_def lineas_vacio lineas_ausente)
  have c: "campo ?E (ascii ''a|b|'' @ [10]) 0 = Str (ascii ''a'')"
    "campo ?E (ascii ''a|b|'' @ [10]) 2 = Str []"
    "campo ?E (ascii ''a|b|c'') 0 = Str (ascii ''a'')"
    "campo ?E (ascii ''a|b|c'') 2 = Str (ascii ''c'')"
    by (simp_all add: campo_def lineas_vacio lineas_ausente entorno_def)
       (simp_all add: normalize_basico normalize_Nil strip_def strip_with_def isspace_def
          ascii_def)
  have f: "fecha_legible ?E (partes_de (ascii ''a|b|'' @ [10])) = NA"
    "fecha_legible ?E (partes_de (ascii ''a|b|c'')) = NA"
    by (simp_all add: fecha_legible_def lineas_vacio lineas_ausente item_def entorno_def py_int_a)
  show ?thesis
    unfolding generar_dataframe_eq[OF a aviso_posible_login] lineas_vacio
    by (simp add: columnas_salida_def fila_salida_def p c f df_vacia_def)
qed

lemma to_csv_ausente_vacia:
  "to_csv env df_ausente = to_csv env df_vacia"
  by (simp add: to_csv_def table_text_def df_ausente_def df_vacia_def cell_text_def)

section \<open>The claims about the export and the route\<close>



text \<open>
  Claim C8 (amended). Exporting a frame to CSV and reading the bytes back (the mark
  dropped, UTF-8 decoded, the records split at commas and line breaks outside quotes) gives
  the header and, for every cell, the text that was written for it: the string of a string
  cell, the printed form of a timestamp, and the empty string for an empty cell.
\<close>

theorem exportar_y_releer:
  assumes "formato \<noteq> ascii ''excel''" and "texto_valido env df"
  shows "\<exists>b. generar_reporte_memoria env df formato = Inr (Bytes b)
     \<and> releer b = table_text env df"
proof -
  from to_csv_bytes[OF assms(2)] obtain b where
    b: "encode_utf8 (to_csv env df) = Inr b" "utf8_decode b = to_csv env df" by blast
  have g: "generar_reporte_memoria env df formato = Inr (Bytes (BOM @ b))"
    using assms(1) b(1) by (simp add: generar_reporte_memoria_def encode_utf8_sig_def)
  have "releer (BOM @ b) = table_text env df"
    by (simp add: releer_def quitar_bom_BOM b(2) to_csv_def csv_read_write)
  then show ?thesis using g by blast
qed

theorem exportar_y_releer_witness:
  "\<exists>b. generar_reporte_memoria entorno_dos marco_ejemplo (ascii ''csv'') = Inr (Bytes b)
     \<and> releer b = [[ascii ''timestamp'', ascii ''cola''], [ascii ''17'', ascii ''a,b''],
                     [[233], []]]"
proof -
  have f: "ascii ''csv'' \<noteq> ascii ''excel''" by (simp add: ascii_def)
  have t: "table_text entorno_dos marco_ejemplo =
      [[ascii ''timestamp'', ascii ''cola''], [ascii ''17'', ascii ''a,b''], [[233], []]]"
    by (simp add: table_text_def marco_ejemplo_def cell_text_def)
  show ?thesis using exportar_y_releer[OF f texto_valido_ejemplo] unfolding t .
qed

text \<open>
  As the claim is stated (the same cell values) it fails, whatever the reader: a line
  without a third field and a line with an empty third field are parsed to different cells,
  an absent one and the empty string, and the two frames are exported to the same bytes.
\<close>

theorem csv_confunde_ausente_y_vacio:
  "generar_dataframe (entorno [(ruta, contenido_ausente)] tabla_login) ruta = Inr df_ausente
   \<and> generar_dataframe (entorno [(ruta, contenido_vacio)] tabla_login) ruta = Inr df_vacia
   \<and> celda df_ausente 0 (ascii ''cola'') = NA
   \<and> celda df_vacia 0 (ascii ''cola'') = Str []
   \<and> generar_reporte_memoria entorno_dos df_ausente (ascii ''csv'')
       = generar_reporte_memoria entorno_dos df_vacia (ascii ''csv'')"
proof -
  have "celda df_ausente 0 (ascii ''cola'') = NA"
    by (simp add: celda_def cell_at_def df_ausente_def ascii_def)
  moreover have "celda df_vacia 0 (ascii ''cola'') = Str []"
    by (simp add: celda_def cell_at_def df_vacia_def ascii_def)
  moreover have "generar_reporte_memoria entorno_dos df_ausente (ascii ''csv'')
       = generar_reporte_memoria entorno_dos df_vacia (ascii ''csv'')"
    by (simp add: generar_reporte_memoria_def to_csv_ausente_vacia) (simp add: ascii_def)
  ultimately show ?thesis using generar_ausente generar_vacia by simp
qed

text \<open>
  Claim C9. When the session holds no uploaded file (and also when the path it holds is
  empty or no longer exists), \<open>/generar/<formato>\<close> answers with status 400 and the message
  of line 178, U+274C followed by \<open> Primero debes subir un archivo.\<close>: no exception, and
  no file is sent. A file is only ever sent for a session that holds the path of an
  existing file.
\<close>

theorem generar_sin_archivo:
  "(session (ascii ''last_file'') = None
      \<longrightarrow> generar env session formato
            = Inr (Cuerpo (10060 # ascii '' Primero debes subir un archivo.'') 400))
   \<and> (session (ascii ''last_file'') = Some filepath \<and> (filepath = [] \<or> archivos env filepath = None)
      \<longrightarrow> generar env session formato
            = Inr (Cuerpo (10060 # ascii '' Primero debes subir un archivo.'') 400))
   \<and> (generar env session formato = Inr (Adjunto archivo nombre tipo)
      \<longrightarrow> (\<exists>fp. session (ascii ''last_file'') = Some fp \<and> fp \<noteq> [] \<and> archivos env fp \<noteq> None))"
  by (auto simp add: generar_def mensaje_sin_archivo_def split: option.splits sum.splits if_splits)

theorem generar_sin_archivo_witness:
  "generar entorno_dos Map.empty (ascii ''csv'')
     = Inr (Cuerpo (10060 # ascii '' Primero debes subir un archivo.'') 400)
   \<and> generar entorno_dos (Map.empty(ascii ''last_file'' \<mapsto> [])) (ascii ''excel'')
     = Inr (Cuerpo (10060 # ascii '' Primero debes subir un archivo.'') 400)"
  using generar_sin_archivo[of Map.empty entorno_dos "ascii ''csv''"]
    generar_sin_archivo[where session = "Map.empty(ascii ''last_file'' \<mapsto> [])"
      and filepath = "[]" and env = entorno_dos and formato = "ascii ''excel''"]
  by simp


section \<open>The route on the file with the two lines\<close>

lemma isoformat_login:
  "isoformat \<lparr>year = 2023, month = 11, day = 14, hour = 22, minute = 13, second = 20\<rparr>
     = ascii ''2023-11-14 22:13:20''"
  by (simp add: isoformat_def pad_def str_nat.simps ascii_def)


text \<open>
  The timestamps of a column are printed as dates alone when all of them are at midnight,
  with the time when one of them is not, and by \<open>str\<close> when one of them does not fit the
  nanosecond resolution.
\<close>

lemma fecha_pandas_ejemplos:
  "fecha_pandas [Fecha \<lparr>year = 2023, month = 11, day = 14, hour = 0, minute = 0, second = 0\<rparr>, NA]
     \<lparr>year = 2023, month = 11, day = 14, hour = 0, minute = 0, second = 0\<rparr>
     = ascii ''2023-11-14''"
  "fecha_pandas [Fecha \<lparr>year = 2023, month = 11, day = 14, hour = 0, minute = 0, second = 0\<rparr>,
                 Fecha \<lparr>year = 2023, month = 11, day = 14, hour = 22, minute = 13, second = 20\<rparr>]
     \<lparr>year = 2023, month = 11, day = 14, hour = 0, minute = 0, second = 0\<rparr>
     = ascii ''2023-11-14 00:00:00''"
  "fecha_pandas [Fecha \<lparr>year = 1, month = 1, day = 2, hour = 0, minute = 0, second = 0\<rparr>]
     \<lparr>year = 1, month = 1, day = 2, hour = 0, minute = 0, second = 0\<rparr>
     = ascii ''0001-01-02 00:00:00''"
proof -
  have r: "replicate 3 (48::nat) = [48, 48, 48]" by (simp add: numeral_3_eq_3)
  show "fecha_pandas [Fecha \<lparr>year = 2023, month = 11, day = 14, hour = 0, minute = 0, second = 0\<rparr>, NA]
     \<lparr>year = 2023, month = 11, day = 14, hour = 0, minute = 0, second = 0\<rparr>
     = ascii ''2023-11-14''"
    by (simp add: fecha_pandas_def campos_fecha_def isodate_def pad_def str_nat.simps ascii_def)
  show "fecha_pandas [Fecha \<lparr>year = 2023, month = 11, day = 14, hour = 0, minute = 0, second = 0\<rparr>,
                 Fecha \<lparr>year = 2023, month = 11, day = 14, hour = 22, minute = 13, second = 20\<rparr>]
     \<lparr>year = 2023, month = 11, day = 14, hour = 0, minute = 0, second = 0\<rparr>
     = ascii ''2023-11-14 00:00:00''"
    by (simp add: fecha_pandas_def campos_fecha_def isoformat_def pad_def str_nat.simps ascii_def)
  show "fecha_pandas [Fecha \<lparr>year = 1, month = 1, day = 2, hour = 0, minute = 0, second = 0\<rparr>]
     \<lparr>year = 1, month = 1, day = 2, hour = 0, minute = 0, second = 0\<rparr>
     = ascii ''0001-01-02 00:00:00''"
    by (simp add: fecha_pandas_def campos_fecha_def isoformat_def pad_def str_nat.simps ascii_def r)
qed

lemma table_text_dos:
  "table_text entorno_dos df_dos =
     [[ascii ''timestamp'', ascii ''fecha_legible'', ascii ''cola'', ascii ''evento'',
       ascii ''numero_telefono''],
      [ascii ''1700000000'', ascii ''2023-11-14 22:13:20'', ascii ''queueA'', ascii ''Login'',
       ascii ''5551234''],
      [ascii ''abc'', [], ascii ''queueB'', ascii ''EVT9'', ascii ''5559999'']]"
  by (simp add: table_text_def df_dos_def cell_text_def entorno_dos_def entorno_def
        fecha_pandas_def column_cells_def isoformat_login)

lemma to_csv_dos:
  "to_csv entorno_dos df_dos =
     ascii ''timestamp,fecha_legible,cola,evento,numero_telefono'' @ [10]
     @ ascii ''1700000000,2023-11-14 22:13:20,queueA,Login,5551234'' @ [10]
     @ ascii ''abc,,queueB,EVT9,5559999'' @ [10]"
  unfolding to_csv_def table_text_dos
  by (simp add: csv_write_def csv_row_def csv_field_def csv_special_def ascii_def)

lemma texto_valido_dos: "texto_valido entorno_dos df_dos"
  unfolding texto_valido_def table_text_dos by (simp add: escalar_def ascii_def)

lemma generar_con_archivo:
  "\<exists>b. generar entorno_dos (Map.empty(ascii ''last_file'' \<mapsto> ruta)) (ascii ''csv'')
        = Inr (Adjunto (Bytes (BOM @ b)) (ascii ''reporte.csv'') (ascii ''text/csv''))
      \<and> utf8_decode b =
          ascii ''timestamp,fecha_legible,cola,evento,numero_telefono'' @ [10]
          @ ascii ''1700000000,2023-11-14 22:13:20,queueA,Login,5551234'' @ [10]
          @ ascii ''abc,,queueB,EVT9,5559999'' @ [10]"
proof -
  have f: "ascii ''csv'' \<noteq> ascii ''excel''" by (simp add: ascii_def)
  have r: "ruta \<noteq> []" by (simp add: ruta_def ascii_def)
  have g: "generar_dataframe entorno_dos ruta = Inr df_dos"
    by (simp add: escenario_dos df_dos_def)
  from to_csv_bytes[OF texto_valido_dos] obtain b where
    b: "encode_utf8 (to_csv entorno_dos df_dos) = Inr b"
       "utf8_decode b = to_csv entorno_dos df_dos"
    by blast
  have m: "generar_reporte_memoria entorno_dos df_dos (ascii ''csv'') = Inr (Bytes (BOM @ b))"
    using f b(1) by (simp add: generar_reporte_memoria_def encode_utf8_sig_def)
  have "generar entorno_dos (Map.empty(ascii ''last_file'' \<mapsto> ruta)) (ascii ''csv'')
        = Inr (Adjunto (Bytes (BOM @ b)) (ascii ''reporte.csv'') (ascii ''text/csv''))"
    using f r by (simp add: generar_def archivos_dos g m)
  then show ?thesis using b(2) unfolding to_csv_dos by blast
qed

end
